theory Spec2Isabelle
  imports Complex_Main
begin

section \<open>Python values used by the sound generator\<close>

text \<open>
  Sample buffers are Python lists of floats. Floats are modelled as real numbers, so
  rounding, overflow and NaN are outside the model; list lengths and indices are exact.
  A Python complex number is a complex number, and a buffer that can hold one (the
  output of \<open>reverb\<close>) is a list of complex numbers, in which a float is the number of
  imaginary part 0. An exception of the source is a value of type \<open>error\<close>.
\<close>

datatype error = ValueError | ZeroDivisionError | IndexError

text \<open>Python's \<open>int(x)\<close> on a float: truncation toward zero.\<close>

definition py_int :: "real \<Rightarrow> int" where
  "py_int x = (if 0 \<le> x then \<lfloor>x\<rfloor> else \<lceil>x\<rceil>)"

text \<open>
  Python's \<open>max\<close> of a sequence: \<open>ValueError\<close> on an empty one, otherwise the running
  maximum from the first element on.
\<close>

fun py_max :: "'a::linorder list \<Rightarrow> error + 'a" where
  "py_max [] = Inl ValueError"
| "py_max (x # xs) = Inr (fold max xs x)"

text \<open>
  \<open>out[k] += v\<close> on a Python list: a negative index counts from the end, an index
  outside the list raises \<open>IndexError\<close>.
\<close>

definition py_iadd :: "'a::plus list \<Rightarrow> int \<Rightarrow> 'a \<Rightarrow> error + 'a list" where
  "py_iadd out k v =
     (let n = int (length out); j = (if k < 0 then n + k else k)
      in if 0 \<le> j \<and> j < n then Inr (out[nat j := out ! nat j + v]) else Inl IndexError)"

text \<open>The slices \<open>xs[a:]\<close> and \<open>xs[:b]\<close>, with Python's reading of negative bounds.\<close>

definition py_slice_from :: "'a list \<Rightarrow> int \<Rightarrow> 'a list" where
  "py_slice_from xs a = drop (nat (if a < 0 then int (length xs) + a else a)) xs"

definition py_slice_to :: "'a list \<Rightarrow> int \<Rightarrow> 'a list" where
  "py_slice_to xs b = take (nat (if b < 0 then int (length xs) + b else b)) xs"

text \<open>
  \<open>x ** y\<close> on floats. \<open>py_pow_value\<close> is the number Python returns: the real power for
  a positive base, \<open>0.0 ** 0.0 = 1.0\<close> and \<open>0.0 ** y = 0.0\<close> for \<open>y > 0\<close>, the real power
  for a negative base with an integral exponent, and for a negative base with a
  fractional exponent the complex number \<open>|x| ** y * (cos (pi * y) + i * sin (pi * y))\<close>;
  nothing is raised there. The one exception of \<open>**\<close> in the model is a zero base with a
  negative exponent.
\<close>

definition py_pow_value :: "real \<Rightarrow> real \<Rightarrow> complex" where
  "py_pow_value x y =
     (if 0 < x then of_real (x powr y)
      else if x = 0 then (if y = 0 then 1 else 0)
      else if y = of_int \<lfloor>y\<rfloor> then of_real (x powi \<lfloor>y\<rfloor>)
      else of_real (\<bar>x\<bar> powr y) * cis (pi * y))"

definition py_pow :: "real \<Rightarrow> real \<Rightarrow> error + complex" where
  "py_pow x y =
     (if x = 0 \<and> y < 0 then Inl ZeroDivisionError else Inr (py_pow_value x y))"

text \<open>A \<open>for\<close> loop whose body may raise: the first exception ends the loop.\<close>

fun for_each :: "('a \<Rightarrow> 'b \<Rightarrow> error + 'b) \<Rightarrow> 'a list \<Rightarrow> 'b \<Rightarrow> error + 'b" where
  "for_each body [] st = Inr st"
| "for_each body (x # xs) st =
     (case body x st of Inl e \<Rightarrow> Inl e | Inr st' \<Rightarrow> for_each body xs st')"

section \<open>dsp.py\<close>

subsection \<open>lowpass\<close>

text \<open>
  One pass of the inner loops of \<open>lowpass\<close>:
  \<^verbatim>\<open>
  out = [0.0] * len(buf)
  out[0] = buf[0] * alpha
  for i in range(1, len(buf)):
      out[i] = out[i - 1] + alpha * (buf[i] - out[i - 1])
  \<close>
  \<open>buf[0]\<close> raises \<open>IndexError\<close> on an empty buffer.
\<close>

definition lowpass_stage :: "real \<Rightarrow> real list \<Rightarrow> error + real list" where
  "lowpass_stage alpha buf =
     (if buf = [] then Inl IndexError
      else Inr (fold (\<lambda>i out. out[i := out ! (i - 1) + alpha * (buf ! i - out ! (i - 1))])
                  [1..<length buf]
                  ((replicate (length buf) 0)[0 := buf ! 0 * alpha])))"

text \<open>\<open>for _ in range(poles)\<close>: each pass filters the result of the one before.\<close>

fun lowpass_poles :: "nat \<Rightarrow> real \<Rightarrow> real list \<Rightarrow> error + real list" where
  "lowpass_poles 0 alpha buf = Inr buf"
| "lowpass_poles (Suc n) alpha buf =
     (case lowpass_stage alpha buf of Inl e \<Rightarrow> Inl e | Inr out \<Rightarrow> lowpass_poles n alpha out)"

text \<open>
  The three divisions before the loop raise \<open>ZeroDivisionError\<close> on a zero divisor;
  there is no other check of the parameters.
\<close>

definition lowpass :: "real list \<Rightarrow> real \<Rightarrow> real \<Rightarrow> int \<Rightarrow> error + real list" where
  "lowpass samples cutoff_hz sr poles =
     (if 2 * pi * cutoff_hz = 0 then Inl ZeroDivisionError
      else let rc = 1 / (2 * pi * cutoff_hz) in
      if sr = 0 then Inl ZeroDivisionError
      else let dt = 1 / sr in
      if rc + dt = 0 then Inl ZeroDivisionError
      else let alpha = dt / (rc + dt) in
      lowpass_poles (nat poles) alpha samples)"

subsection \<open>reverb\<close>

text \<open>
  \<^verbatim>\<open>
  max_delay = int(sr * max(delays_ms) / 1000)
  out = [0.0] * (len(samples) + max_delay + int(sr * tail_s))
  for i, s in enumerate(samples):
      out[i] += s
  for d_ms in delays_ms:
      d = int(sr * d_ms / 1000)
      atten = decay ** (d_ms / delays_ms[0])
      for i, s in enumerate(samples):
          out[i + d] += s * atten
  return out
  \<close>
  \<open>out\<close> starts as floats; \<open>atten\<close>, and with it the entries a tap adds to, can be
  complex.
\<close>

definition reverb_tap ::
  "real list \<Rightarrow> real \<Rightarrow> real \<Rightarrow> real list \<Rightarrow> real \<Rightarrow> complex list \<Rightarrow> error + complex list" where
  "reverb_tap samples sr decay delays_ms d_ms out =
     (let d = py_int (sr * d_ms / 1000) in
      if hd delays_ms = 0 then Inl ZeroDivisionError
      else case py_pow decay (d_ms / hd delays_ms) of
             Inl e \<Rightarrow> Inl e
           | Inr atten \<Rightarrow>
               for_each (\<lambda>(i, s) out. py_iadd out (int i + d) (of_real s * atten))
                 (enumerate 0 samples) out)"

definition reverb ::
  "real list \<Rightarrow> real \<Rightarrow> real \<Rightarrow> real list \<Rightarrow> real \<Rightarrow> error + complex list" where
  "reverb samples sr decay delays_ms tail_s =
     (case py_max delays_ms of
        Inl e \<Rightarrow> Inl e
      | Inr m \<Rightarrow>
          let max_delay = py_int (sr * m / 1000);
              out = replicate (nat (int (length samples) + max_delay + py_int (sr * tail_s))) 0
          in case for_each (\<lambda>(i, s) out. py_iadd out (int i) (of_real s))
                    (enumerate 0 samples) out of
               Inl e \<Rightarrow> Inl e
             | Inr out \<Rightarrow> for_each (reverb_tap samples sr decay delays_ms) delays_ms out)"

subsection \<open>normalize\<close>

text \<open>
  \<^verbatim>\<open>
  mx = max(abs(s) for s in samples) or 1.0
  if mx > peak:
      return [s * peak / mx for s in samples]
  return list(samples)
  \<close>
  \<open>mx\<close> is positive where the division happens.
\<close>

definition normalize :: "real list \<Rightarrow> real \<Rightarrow> error + real list" where
  "normalize samples peak =
     (case py_max (map abs samples) of
        Inl e \<Rightarrow> Inl e
      | Inr m \<Rightarrow>
          let mx = (if m = 0 then 1 else m)
          in if mx > peak then Inr (map (\<lambda>s. s * peak / mx) samples) else Inr samples)"

subsection \<open>trim_silence\<close>

text \<open>
  \<^verbatim>\<open>
  out = list(samples)
  while len(out) > chunk and all(abs(s) < threshold for s in out[-chunk:]):
      out = out[:-chunk]
  return out
  \<close>
  The loop need not end when \<open>chunk\<close> is negative (\<open>out[:-chunk]\<close> is then a prefix whose
  rest \<open>out[-chunk:]\<close> is empty once it has been cut): \<open>None\<close> is "does not return".
\<close>

partial_function (option) trim_silence :: "real list \<Rightarrow> real \<Rightarrow> int \<Rightarrow> real list option" where
  "trim_silence out threshold chunk =
     (if int (length out) > chunk \<and> list_all (\<lambda>s. \<bar>s\<bar> < threshold) (py_slice_from out (- chunk))
      then trim_silence (py_slice_to out (- chunk)) threshold chunk
      else Some out)"

subsection \<open>fade_out\<close>

text \<open>
  \<^verbatim>\<open>
  pad = [0.0] * int(sr * 0.05)
  fade_frames = min(int(sr * fade_ms / 1000), len(samples))
  out = list(samples)
  start = len(out) - fade_frames
  for i in range(fade_frames):
      t = i / fade_frames
      out[start + i] *= 0.5 * (1.0 + math.cos(math.pi * t))
  return pad + out + pad
  \<close>
  Inside the loop \<open>fade_frames\<close> is positive and \<open>start + i\<close> is an index of \<open>out\<close>.
\<close>

definition fade_out :: "real list \<Rightarrow> real \<Rightarrow> real \<Rightarrow> real list" where
  "fade_out samples fade_ms sr =
     (let pad = replicate (nat (py_int (sr * 0.05))) 0;
          fade_frames = min (py_int (sr * fade_ms / 1000)) (int (length samples));
          start = int (length samples) - fade_frames;
          out = fold (\<lambda>i out.
                   let t = real i / real_of_int fade_frames
                   in out[nat (start + int i) :=
                            out ! nat (start + int i) * (0.5 * (1 + cos (pi * t)))])
                 [0..<nat fade_frames] samples
      in pad @ out @ pad)"

subsection \<open>to_int16\<close>

text \<open>
  \<^verbatim>\<open>return [int(max(-1.0, min(1.0, s)) * 32767) for s in samples]\<close>
\<close>

definition to_int16 :: "real list \<Rightarrow> int list" where
  "to_int16 samples = map (\<lambda>s. py_int (max (-1) (min 1 s) * 32767)) samples"

section \<open>synth.py\<close>

text \<open>
  \<^verbatim>\<open>
  def _note_fadeout(i, frames):
      fade_start = int(frames * 0.85)
      if i >= fade_start:
          t = (i - fade_start) / (frames - fade_start)
          return 0.5 * (1.0 + math.cos(math.pi * t))
      return 1.0
  \<close>
  The instruments call it inside \<open>for i in range(frames)\<close>, so with \<open>0 \<le> i < frames\<close>,
  where the divisor \<open>frames - fade_start\<close> is positive.
\<close>

definition note_fadeout :: "int \<Rightarrow> int \<Rightarrow> real" where
  "note_fadeout i frames =
     (let fade_start = py_int (of_int frames * 0.85)
      in if i \<ge> fade_start
         then let t = of_int (i - fade_start) / of_int (frames - fade_start)
              in 0.5 * (1 + cos (pi * t))
         else 1)"

text \<open>
  The sum over \<open>zip(partials, decay_rates)\<close> in the loops of \<open>glockenspiel\<close> and
  \<open>marimba\<close>, at time \<open>t\<close>.
\<close>

definition partial_sum :: "((real \<times> real) \<times> real) list \<Rightarrow> real \<Rightarrow> real \<Rightarrow> real" where
  "partial_sum ps freq t =
     fold (\<lambda>((ratio, amp), dr) s. s + amp * sin (2 * pi * freq * ratio * t) * exp (- dr * t)) ps 0"

text \<open>
  The sample of \<open>glockenspiel\<close> and \<open>marimba\<close> at frame \<open>i\<close> before volume and release:
  the partials, scaled by \<open>i / attack_frames\<close> during the attack (where
  \<open>attack_frames\<close> is positive).
\<close>

definition struck_sample ::
  "((real \<times> real) \<times> real) list \<Rightarrow> int \<Rightarrow> real \<Rightarrow> real \<Rightarrow> nat \<Rightarrow> real" where
  "struck_sample ps attack_frames freq sr i =
     (let t = real i / sr;
          s = partial_sum ps freq t
      in if int i < attack_frames then s * (real i / of_int attack_frames) else s)"

definition glockenspiel_partials :: "((real \<times> real) \<times> real) list" where
  "glockenspiel_partials =
     (let partials = [(1.0, 1.0), (2.76, 0.45), (5.4, 0.20), (8.93, 0.08)];
          decay_rates = [4.0, 6.0, 10.0, 16.0]
      in zip partials decay_rates)"

definition glockenspiel :: "real \<Rightarrow> real \<Rightarrow> real \<Rightarrow> real \<Rightarrow> real list" where
  "glockenspiel freq duration_ms volume sr =
     (let frames = py_int (sr * duration_ms / 1000);
          attack_frames = py_int (sr * 0.002)
      in map (\<lambda>i. struck_sample glockenspiel_partials attack_frames freq sr i
                   * volume * note_fadeout (int i) frames)
           [0..<nat frames])"

text \<open>
  \<open>sine_tone\<close> has linear fades of \<open>fade_ms\<close> at both ends and no call of
  \<open>_note_fadeout\<close>:
  \<^verbatim>\<open>
  for i in range(frames):
      t = i / sr
      s = math.sin(2 * math.pi * freq * t) * volume
      if i < fade_frames:
          s *= i / fade_frames
      if i > frames - fade_frames:
          s *= (frames - i) / fade_frames
      samples.append(s)
  \<close>
\<close>

definition sine_sample :: "int \<Rightarrow> int \<Rightarrow> real \<Rightarrow> real \<Rightarrow> real \<Rightarrow> nat \<Rightarrow> real" where
  "sine_sample frames fade_frames freq volume sr i =
     (let t = real i / sr;
          s = sin (2 * pi * freq * t) * volume;
          s = (if int i < fade_frames then s * (real i / of_int fade_frames) else s);
          s = (if int i > frames - fade_frames
               then s * (of_int (frames - int i) / of_int fade_frames) else s)
      in s)"

definition sine_tone :: "real \<Rightarrow> real \<Rightarrow> real \<Rightarrow> real \<Rightarrow> real \<Rightarrow> real list" where
  "sine_tone freq duration_ms volume fade_ms sr =
     (let frames = py_int (sr * duration_ms / 1000);
          fade_frames = py_int (sr * fade_ms / 1000)
      in map (sine_sample frames fade_frames freq volume sr) [0..<nat frames])"

definition marimba_partials :: "((real \<times> real) \<times> real) list" where
  "marimba_partials =
     (let partials = [(1.0, 1.0), (4.0, 0.30), (9.2, 0.08)];
          decay_rates = [3.5, 7.0, 14.0]
      in zip partials decay_rates)"

definition marimba :: "real \<Rightarrow> real \<Rightarrow> real \<Rightarrow> real \<Rightarrow> real list" where
  "marimba freq duration_ms volume sr =
     (let frames = py_int (sr * duration_ms / 1000);
          attack_frames = py_int (sr * 0.004)
      in map (\<lambda>i. struck_sample marimba_partials attack_frames freq sr i
                   * volume * note_fadeout (int i) frames)
           [0..<nat frames])"

text \<open>
  \<open>ambient\<close> writes the release out in its own loop instead of calling
  \<open>_note_fadeout\<close>. \<open>ambient_env\<close> is \<open>env\<close> after the attack, \<open>ambient_voices\<close> the
  sum \<open>s\<close> of the three sines.
\<close>

definition ambient_env :: "int \<Rightarrow> real \<Rightarrow> nat \<Rightarrow> real" where
  "ambient_env attack_frames sr i =
     (let t = real i / sr;
          env = exp (- 0.5 * t)
      in if int i < attack_frames
         then env * (0.5 * (1 - cos (pi * real i / of_int attack_frames)))
         else env)"

definition ambient_voices :: "real \<Rightarrow> real \<Rightarrow> nat \<Rightarrow> real" where
  "ambient_voices freq sr i =
     (let t = real i / sr;
          f1 = freq - 1.5;
          f2 = freq + 1.5;
          f_oct = freq * 2.0
      in 0 + 0.5 * sin (2 * pi * f1 * t) + 0.5 * sin (2 * pi * f2 * t)
           + 0.12 * sin (2 * pi * f_oct * t))"

definition ambient :: "real \<Rightarrow> real \<Rightarrow> real \<Rightarrow> real \<Rightarrow> real list" where
  "ambient freq duration_ms volume sr =
     (let frames = py_int (sr * duration_ms / 1000);
          attack_frames = py_int (sr * 120 / 1000);
          fade_start = py_int (of_int frames * 0.85);
          fade_len = frames - fade_start
      in map (\<lambda>i.
             let env = ambient_env attack_frames sr i;
                 env = (if int i \<ge> fade_start
                        then let ft = of_int (int i - fade_start) / of_int fade_len
                             in env * (0.5 * (1 + cos (pi * ft)))
                        else env)
             in ambient_voices freq sr i * env * volume)
           [0..<nat frames])"

text \<open>
  \<open>bowl\<close>: the partials carry their decay rate and share the wobble \<open>mod\<close>;
  \<open>bowl_sample\<close> is \<open>s * att\<close> at frame \<open>i\<close>.
\<close>

definition bowl_sample :: "int \<Rightarrow> real \<Rightarrow> real \<Rightarrow> nat \<Rightarrow> real" where
  "bowl_sample attack_frames freq sr i =
     (let t = real i / sr;
          att = (if int i < attack_frames
                 then 0.5 * (1 - cos (pi * real i / of_int attack_frames)) else 1);
          partials = [(1.0, 1.0, 1.2), (2.0, 0.35, 1.8), (3.01, 0.15, 2.5), (4.98, 0.06, 3.5)];
          s = fold (\<lambda>(ratio, amp, dr) s.
                  let m = 1 + 0.06 * sin (2 * pi * 4.1 * t)
                  in s + amp * sin (2 * pi * freq * ratio * t) * exp (- dr * t) * m)
                partials 0
      in s * att)"

definition bowl :: "real \<Rightarrow> real \<Rightarrow> real \<Rightarrow> real \<Rightarrow> real list" where
  "bowl freq duration_ms volume sr =
     (let frames = py_int (sr * duration_ms / 1000);
          attack_frames = py_int (sr * 80 / 1000)
      in map (\<lambda>i. bowl_sample attack_frames freq sr i * volume * note_fadeout (int i) frames)
           [0..<nat frames])"

section \<open>generate.py\<close>

definition SR :: real where
  "SR = 44100"

text \<open>
  The buffer \<open>mixed\<close> of \<open>gen_chord\<close>, as it is handed to \<open>process\<close>:
  \<^verbatim>\<open>
  per_voice = volume / len(freqs)
  voices = [synth_fn(f, duration_ms, per_voice, sr=SR) for f in freqs]
  max_len = max(len(v) for v in voices)
  mixed = [0.0] * max_len
  for voice in voices:
      for i, s in enumerate(voice):
          mixed[i] += s
  \<close>
\<close>

definition chord_voices ::
  "(real \<Rightarrow> real \<Rightarrow> real \<Rightarrow> real \<Rightarrow> real list) \<Rightarrow> real list \<Rightarrow> real \<Rightarrow> real \<Rightarrow> real list list" where
  "chord_voices synth_fn freqs duration_ms volume =
     (let per_voice = volume / real (length freqs)
      in map (\<lambda>f. synth_fn f duration_ms per_voice SR) freqs)"

definition gen_chord_mixed ::
  "(real \<Rightarrow> real \<Rightarrow> real \<Rightarrow> real \<Rightarrow> real list) \<Rightarrow> real list \<Rightarrow> real \<Rightarrow> real \<Rightarrow> error + real list" where
  "gen_chord_mixed synth_fn freqs duration_ms volume =
     (if length freqs = 0 then Inl ZeroDivisionError
      else
        let voices = chord_voices synth_fn freqs duration_ms volume
        in case py_max (map length voices) of
             Inl e \<Rightarrow> Inl e
           | Inr max_len \<Rightarrow>
               for_each (\<lambda>voice mixed.
                     for_each (\<lambda>(i, s) mixed. py_iadd mixed (int i) s) (enumerate 0 voice) mixed)
                 voices (replicate max_len 0))"

section \<open>The stated output of the reverb\<close>

text \<open>
  The output sample \<open>j\<close> as the specification words it: the dry input (0 past its end)
  plus, for every tap of \<open>d\<close> delay frames with \<open>d \<le> j\<close>, the input sample \<open>j - d\<close>
  (0 past the input's end) attenuated by \<open>decay ** (d_ms / delays_ms[0])\<close>. The delay
  frames are those of the code, \<open>int(sr * d_ms / 1000)\<close>, and the power is Python's.
\<close>

definition reverb_tap_term ::
  "real list \<Rightarrow> real \<Rightarrow> real \<Rightarrow> real list \<Rightarrow> real \<Rightarrow> nat \<Rightarrow> complex" where
  "reverb_tap_term samples sr decay delays_ms d_ms j =
     (let d = py_int (sr * d_ms / 1000)
      in if d \<le> int j \<and> int j - d < int (length samples)
         then of_real (samples ! nat (int j - d)) * py_pow_value decay (d_ms / hd delays_ms)
         else 0)"

definition reverb_spec :: "real list \<Rightarrow> real \<Rightarrow> real \<Rightarrow> real list \<Rightarrow> nat \<Rightarrow> complex" where
  "reverb_spec samples sr decay delays_ms j =
     (if j < length samples then of_real (samples ! j) else 0)
       + sum_list (map (\<lambda>d_ms. reverb_tap_term samples sr decay delays_ms d_ms j) delays_ms)"

text \<open>The same sample for a positive decay, where every term is real.\<close>

definition reverb_tap_term_real ::
  "real list \<Rightarrow> real \<Rightarrow> real \<Rightarrow> real list \<Rightarrow> real \<Rightarrow> nat \<Rightarrow> real" where
  "reverb_tap_term_real samples sr decay delays_ms d_ms j =
     (let d = py_int (sr * d_ms / 1000)
      in if d \<le> int j \<and> int j - d < int (length samples)
         then samples ! nat (int j - d) * decay powr (d_ms / hd delays_ms) else 0)"

definition reverb_spec_real :: "real list \<Rightarrow> real \<Rightarrow> real \<Rightarrow> real list \<Rightarrow> nat \<Rightarrow> real" where
  "reverb_spec_real samples sr decay delays_ms j =
     (if j < length samples then samples ! j else 0)
       + sum_list (map (\<lambda>d_ms. reverb_tap_term_real samples sr decay delays_ms d_ms j) delays_ms)"

section \<open>Properties of py_int\<close>

lemma py_int_mono: "x \<le> y \<Longrightarrow> py_int x \<le> py_int y"
proof -
  assume xy: "x \<le> y"
  have fc: "\<lfloor>x\<rfloor> \<le> \<lceil>y\<rceil>"
    using xy by (meson ceiling_mono floor_le_ceiling order_trans)
  have neg: "x < 0 \<Longrightarrow> 0 \<le> y \<Longrightarrow> \<lceil>x\<rceil> \<le> \<lfloor>y\<rfloor>"
  proof -
    assume "x < 0" "0 \<le> y"
    then have "\<lceil>x\<rceil> \<le> 0" and "0 \<le> \<lfloor>y\<rfloor>" by (simp_all add: ceiling_le_zero)
    then show ?thesis by linarith
  qed
  show ?thesis
    using xy neg by (auto simp: py_int_def floor_mono ceiling_mono)
qed

lemma py_int_of_int [simp]: "py_int (of_int k) = k"
  by (simp add: py_int_def)

lemma py_int_numeral [simp]:
  "py_int (numeral n) = numeral n" "py_int (- numeral n) = - numeral n"
  by (simp_all add: py_int_def)

lemma py_int_nonneg: "0 \<le> x \<Longrightarrow> 0 \<le> py_int x"
  by (simp add: py_int_def)

lemma py_int_truncates:
  "\<bar>of_int (py_int x)\<bar> \<le> \<bar>x\<bar> \<and> \<bar>x\<bar> < \<bar>of_int (py_int x)\<bar> + 1
   \<and> (0 \<le> x \<longrightarrow> 0 \<le> py_int x) \<and> (x \<le> 0 \<longrightarrow> py_int x \<le> 0)"
proof (cases "0 \<le> x")
  case True
  then show ?thesis by (simp add: py_int_def)
next
  case False
  then have "x < 0" by simp
  then have c: "\<lceil>x\<rceil> \<le> 0" by (simp add: ceiling_le_zero)
  have "of_int \<lceil>x\<rceil> < x + 1" by linarith
  moreover have "x \<le> of_int \<lceil>x\<rceil>" by linarith
  ultimately show ?thesis using \<open>x < 0\<close> c by (simp add: py_int_def)
qed

section \<open>The oscillator bank\<close>

lemma len_glockenspiel: "length (glockenspiel f d v sr) = nat (py_int (sr * d / 1000))"
  by (simp add: glockenspiel_def Let_def)

lemma len_sine_tone: "length (sine_tone f d v fm sr) = nat (py_int (sr * d / 1000))"
  by (simp add: sine_tone_def Let_def)

lemma len_marimba: "length (marimba f d v sr) = nat (py_int (sr * d / 1000))"
  by (simp add: marimba_def Let_def)

lemma len_ambient: "length (ambient f d v sr) = nat (py_int (sr * d / 1000))"
  by (simp add: ambient_def Let_def)

lemma len_bowl: "length (bowl f d v sr) = nat (py_int (sr * d / 1000))"
  by (simp add: bowl_def Let_def)

text \<open>
  C2, as the code has it. Every instrument returns a buffer of
  \<open>int(sr * duration_ms / 1000)\<close> samples: the product is truncated toward zero, not
  rounded, and a negative product gives the empty buffer.
\<close>

theorem synth_buffer_length:
  "length (glockenspiel f d v sr) = nat (py_int (sr * d / 1000)) \<and>
   length (sine_tone f d v fade_ms sr) = nat (py_int (sr * d / 1000)) \<and>
   length (marimba f d v sr) = nat (py_int (sr * d / 1000)) \<and>
   length (ambient f d v sr) = nat (py_int (sr * d / 1000)) \<and>
   length (bowl f d v sr) = nat (py_int (sr * d / 1000))"
  by (simp add: len_glockenspiel len_sine_tone len_marimba len_ambient len_bowl)

theorem synth_buffer_length_witness:
  "length (glockenspiel 440 600 0.4 44100) = 26460 \<and>
   length (sine_tone 440 7 0.3 60 44100) = 308 \<and>
   length (bowl 131 (-5) 0.3 44100) = 0"
  using synth_buffer_length [of 440 600 "0.4" 44100]
    synth_buffer_length [of 440 7 "0.3" 44100 60]
    synth_buffer_length [of 131 "-5" "0.3" 44100]
  by (simp add: py_int_def)

text \<open>
  C2 as stated fails: a 7 ms sine tone at 44100 Hz has 308 samples, and
  \<open>44100 * 7 / 1000 = 308.7\<close> rounds to 309.
\<close>

theorem synth_buffer_length_counterexample:
  "length (sine_tone 440 7 0.3 60 44100) = 308 \<and>
   round (44100 * 7 / 1000 :: real) = 309"
  by (simp add: len_sine_tone py_int_def round_def)

subsection \<open>The release at the end of a note\<close>

lemma fade_start_less: "0 < frames \<Longrightarrow> py_int (of_int frames * 0.85) < frames"
proof -
  assume f: "0 < frames"
  have "of_int (py_int (of_int frames * 0.85))
          = (of_int \<lfloor>of_int frames * 0.85 :: real\<rfloor> :: real)"
    using f by (simp add: py_int_def)
  also have "\<dots> \<le> (of_int frames * 0.85 :: real)"
    by (rule of_int_floor_le)
  also have "\<dots> < of_int frames" using f by simp
  finally show ?thesis by simp
qed

lemma half_cos_pos:
  "0 \<le> t \<Longrightarrow> t < 1 \<Longrightarrow> 0 < 0.5 * (1 + cos (pi * t)) \<and> 0.5 * (1 + cos (pi * t)) \<le> 1"
proof -
  assume t: "0 \<le> t" "t < 1"
  have "pi * t < pi" using t by simp
  moreover have "0 \<le> pi * t" using t by simp
  ultimately have "cos pi < cos (pi * t)" by (intro cos_monotone_0_pi) auto
  then have "-1 < cos (pi * t)" by simp
  moreover have "cos (pi * t) \<le> 1" by simp
  ultimately show ?thesis by simp
qed

lemma note_fadeout_in_fade:
  "py_int (of_int frames * 0.85) \<le> i \<Longrightarrow>
   note_fadeout i frames =
     0.5 * (1 + cos (pi * (of_int (i - py_int (of_int frames * 0.85))
                            / of_int (frames - py_int (of_int frames * 0.85)))))"
  by (simp add: note_fadeout_def Let_def)

lemma note_fadeout_pos:
  assumes "0 \<le> i" "i < frames"
  shows "0 < note_fadeout i frames \<and> note_fadeout i frames \<le> 1"
proof (cases "py_int (of_int frames * 0.85) \<le> i")
  case True
  let ?fs = "py_int (of_int frames * 0.85)"
  have lt: "?fs < frames" using assms by (intro fade_start_less) simp
  let ?t = "of_int (i - ?fs) / of_int (frames - ?fs) :: real"
  have "0 \<le> ?t" using True lt by simp
  moreover have "?t < 1" using assms lt by simp
  ultimately have pos: "0 < 0.5 * (1 + cos (pi * ?t)) \<and> 0.5 * (1 + cos (pi * ?t)) \<le> 1"
    by (rule half_cos_pos)
  show ?thesis unfolding note_fadeout_in_fade [OF True] using pos .
next
  case False
  then show ?thesis by (simp add: note_fadeout_def Let_def)
qed

lemma last_map_upt: "0 < n \<Longrightarrow> last (map g [0..<n]) = g (n - 1)"
  by (cases n) (simp_all add: last_map)

text \<open>
  C1, as the code has it. For a buffer of \<open>frames \<ge> 1\<close> samples, the last sample of
  \<open>glockenspiel\<close>, \<open>marimba\<close>, \<open>ambient\<close> and \<open>bowl\<close> is the sample before the release
  times the half-cosine release factor at index \<open>frames - 1\<close>,
  \<open>0.5 * (1 + cos (pi * (frames - 1 - fade_start) / (frames - fade_start)))\<close> with
  \<open>fade_start = int(0.85 * frames)\<close>. This factor is positive (at most 1): the fade
  would reach 0 at index \<open>frames\<close>, one past the buffer. \<open>sine_tone\<close> has no cosine
  release; with \<open>2 \<le> fade_frames < frames\<close> its last sample is the sine times the
  volume times \<open>1 / fade_frames\<close>.
\<close>

theorem note_release_last_sample:
  assumes fr: "1 \<le> py_int (sr * d / 1000)"
  shows "(let frames = py_int (sr * d / 1000);
              n = nat frames - 1;
              fade_start = py_int (of_int frames * 0.85);
              rel = note_fadeout (frames - 1) frames
          in last (glockenspiel f d v sr)
               = struck_sample glockenspiel_partials (py_int (sr * 0.002)) f sr n * v * rel \<and>
             last (marimba f d v sr)
               = struck_sample marimba_partials (py_int (sr * 0.004)) f sr n * v * rel \<and>
             last (ambient f d v sr)
               = ambient_voices f sr n * (ambient_env (py_int (sr * 120 / 1000)) sr n * rel) * v \<and>
             last (bowl f d v sr)
               = bowl_sample (py_int (sr * 80 / 1000)) f sr n * v * rel \<and>
             rel = 0.5 * (1 + cos (pi * (of_int (frames - 1 - fade_start)
                                          / of_int (frames - fade_start)))) \<and>
             0 < rel \<and> rel \<le> 1 \<and>
             last (sine_tone f d v fade_ms sr)
               = sine_sample frames (py_int (sr * fade_ms / 1000)) f v sr n \<and>
             (2 \<le> py_int (sr * fade_ms / 1000) \<and> py_int (sr * fade_ms / 1000) < frames \<longrightarrow>
                last (sine_tone f d v fade_ms sr)
                  = sin (2 * pi * f * (real n / sr)) * v
                      * (1 / of_int (py_int (sr * fade_ms / 1000)))))"
proof -
  define frames where "frames = py_int (sr * d / 1000)"
  define n where "n = nat frames - 1"
  let ?fs = "py_int (of_int frames * 0.85)"
  have pos: "0 < nat frames" using fr by (simp add: frames_def)
  have n: "int n = frames - 1" using fr by (simp add: n_def frames_def)
  have nn [simp]: "nat frames - Suc 0 = n" by (simp add: n_def)
  have fs: "?fs \<le> frames - 1" using fade_start_less [of frames] fr by (simp add: frames_def)
  have g: "last (glockenspiel f d v sr)
             = struck_sample glockenspiel_partials (py_int (sr * 0.002)) f sr n * v
                 * note_fadeout (frames - 1) frames"
    using pos n by (simp add: glockenspiel_def Let_def last_map_upt frames_def [symmetric])
  have m: "last (marimba f d v sr)
             = struck_sample marimba_partials (py_int (sr * 0.004)) f sr n * v
                 * note_fadeout (frames - 1) frames"
    using pos n by (simp add: marimba_def Let_def last_map_upt frames_def [symmetric])
  have b: "last (bowl f d v sr)
             = bowl_sample (py_int (sr * 80 / 1000)) f sr n * v * note_fadeout (frames - 1) frames"
    using pos n by (simp add: bowl_def Let_def last_map_upt frames_def [symmetric])
  have rel: "note_fadeout (frames - 1) frames
               = 0.5 * (1 + cos (pi * (of_int (frames - 1 - ?fs) / of_int (frames - ?fs))))"
    using fs by (rule note_fadeout_in_fade)
  have a: "last (ambient f d v sr)
             = ambient_voices f sr n
                 * (ambient_env (py_int (sr * 120 / 1000)) sr n * note_fadeout (frames - 1) frames) * v"
    unfolding rel
    using pos n fs
    by (simp add: ambient_def Let_def last_map_upt frames_def [symmetric])
  have rp: "0 < note_fadeout (frames - 1) frames \<and> note_fadeout (frames - 1) frames \<le> 1"
    using fr by (intro note_fadeout_pos) (simp_all add: frames_def)
  have s: "last (sine_tone f d v fade_ms sr)
             = sine_sample frames (py_int (sr * fade_ms / 1000)) f v sr n"
    using pos by (simp add: sine_tone_def Let_def last_map_upt frames_def [symmetric])
  have s2: "2 \<le> py_int (sr * fade_ms / 1000) \<Longrightarrow> py_int (sr * fade_ms / 1000) < frames \<Longrightarrow>
            last (sine_tone f d v fade_ms sr)
              = sin (2 * pi * f * (real n / sr)) * v * (1 / of_int (py_int (sr * fade_ms / 1000)))"
    unfolding s using n by (simp add: sine_sample_def Let_def)
  show ?thesis
    unfolding Let_def frames_def [symmetric] n_def [symmetric]
    using g m a b rel rp s s2 by blast
qed

theorem note_release_last_sample_witness:
  "1 \<le> py_int (44100 * 600 / 1000) \<and>
   0 < note_fadeout (py_int (44100 * 600 / 1000) - 1) (py_int (44100 * 600 / 1000)) \<and>
   last (sine_tone 440 600 0.4 60 44100)
     = sin (2 * pi * 440 * (real (nat (py_int (44100 * 600 / 1000)) - 1) / 44100)) * 0.4
         * (1 / of_int (py_int (44100 * 60 / 1000)))"
proof -
  have h: "1 \<le> py_int (44100 * 600 / 1000)" by (simp add: py_int_def)
  have k: "2 \<le> py_int (44100 * 60 / 1000) \<and> py_int (44100 * 60 / 1000) < py_int (44100 * 600 / 1000)"
    by (simp add: py_int_def)
  show ?thesis
    using h k note_release_last_sample [OF h, of 440 "0.4" 60] unfolding Let_def by blast
qed

text \<open>
  C1 as stated fails: the 200 ms sine tone of 11025 Hz at 44100 Hz, volume 0.3, ends at
  \<open>-0.3 / 2646\<close>.
\<close>

theorem note_release_counterexample:
  "last (sine_tone 11025 200 0.3 60 44100) = - (0.3 / 2646) \<and>
   last (sine_tone 11025 200 0.3 60 44100) \<noteq> 0"
proof -
  have s: "sin (8819 * pi / 2) = -1"
  proof -
    have "8819 * pi / 2 = real 4409 * pi + pi / 2" by simp
    then have "sin (8819 * pi / 2) = sin (real 4409 * pi + pi / 2)" by simp
    also have "\<dots> = cos (real 4409 * pi)" by (simp add: sin_add del: of_nat_numeral)
    also have "\<dots> = -1" by (simp only: cos_npi) simp
    finally show ?thesis .
  qed
  have "last (sine_tone 11025 200 0.3 60 44100) = sine_sample 8820 2646 11025 0.3 44100 8819"
    by (simp add: sine_tone_def Let_def py_int_def last_map)
  also have "\<dots> = - (0.3 / 2646)"
    using s by (simp add: sine_sample_def Let_def)
  finally show ?thesis by simp
qed

section \<open>The lowpass filter\<close>

lemma lowpass_fold:
  assumes "k \<le> length buf" "length out0 = length buf"
  shows "length (fold (\<lambda>i out. out[i := out ! (i - 1) + alpha * (buf ! i - out ! (i - 1))]) [1..<k] out0)
           = length buf \<and>
         (\<forall>i. 1 \<le> i \<and> i < k \<longrightarrow>
            fold (\<lambda>i out. out[i := out ! (i - 1) + alpha * (buf ! i - out ! (i - 1))]) [1..<k] out0 ! i
              = fold (\<lambda>i out. out[i := out ! (i - 1) + alpha * (buf ! i - out ! (i - 1))]) [1..<k] out0 ! (i - 1)
                + alpha * (buf ! i
                    - fold (\<lambda>i out. out[i := out ! (i - 1) + alpha * (buf ! i - out ! (i - 1))]) [1..<k] out0 ! (i - 1))) \<and>
         fold (\<lambda>i out. out[i := out ! (i - 1) + alpha * (buf ! i - out ! (i - 1))]) [1..<k] out0 ! 0
           = out0 ! 0"
  using assms
proof (induction k)
  case 0
  then show ?case by simp
next
  case (Suc k)
  let ?step = "\<lambda>i out. out[i := out ! (i - 1) + alpha * (buf ! i - out ! (i - 1))]"
  let ?o = "fold ?step [1..<k] out0"
  have IH: "length ?o = length buf"
    "\<And>i. 1 \<le> i \<Longrightarrow> i < k \<Longrightarrow> ?o ! i = ?o ! (i - 1) + alpha * (buf ! i - ?o ! (i - 1))"
    "?o ! 0 = out0 ! 0"
    using Suc by simp_all
  show ?case
  proof (cases "1 \<le> k")
    case False
    then have "k = 0" by simp
    then show ?thesis using Suc.prems by simp
  next
    case True
    then have upt: "[1..<Suc k] = [1..<k] @ [k]" by simp
    have new: "fold ?step [1..<Suc k] out0 = ?o[k := ?o ! (k - 1) + alpha * (buf ! k - ?o ! (k - 1))]"
      unfolding upt by simp
    have klen: "k < length ?o" using Suc.prems IH(1) by simp
    let ?v = "?o ! (k - 1) + alpha * (buf ! k - ?o ! (k - 1))"
    have len: "length (?o[k := ?v]) = length buf" using IH(1) by simp
    have zero: "?o[k := ?v] ! 0 = out0 ! 0" using True IH(3) by simp
    have rec: "?o[k := ?v] ! i = ?o[k := ?v] ! (i - 1) + alpha * (buf ! i - ?o[k := ?v] ! (i - 1))"
      if i: "1 \<le> i" "i < Suc k" for i
    proof (cases "i = k")
      case True
      have "?o[k := ?v] ! k = ?v" using klen by simp
      moreover have "?o[k := ?v] ! (k - 1) = ?o ! (k - 1)" using \<open>1 \<le> k\<close> by simp
      ultimately show ?thesis using True by simp
    next
      case False
      then have ik: "i < k" using i by simp
      have "?o[k := ?v] ! i = ?o ! i" using False by simp
      moreover have "?o[k := ?v] ! (i - 1) = ?o ! (i - 1)" using ik by simp
      ultimately show ?thesis using IH(2) [OF i(1) ik] by simp
    qed
    show ?thesis
      unfolding new using len zero rec by blast
  qed
qed

lemma lowpass_stage_ok:
  assumes "buf \<noteq> []"
  shows "\<exists>out. lowpass_stage alpha buf = Inr out \<and> length out = length buf \<and>
           out ! 0 = buf ! 0 * alpha \<and>
           (\<forall>i. 1 \<le> i \<and> i < length buf \<longrightarrow> out ! i = out ! (i - 1) + alpha * (buf ! i - out ! (i - 1)))"
proof -
  let ?out0 = "(replicate (length buf) (0::real))[0 := buf ! 0 * alpha]"
  have "length ?out0 = length buf" by simp
  from lowpass_fold [OF le_refl this, of alpha] assms
  show ?thesis by (simp add: lowpass_stage_def)
qed

lemma lowpass_stage_empty: "lowpass_stage alpha [] = Inl IndexError"
  by (simp add: lowpass_stage_def)

lemma lowpass_stage_Inr:
  "lowpass_stage alpha buf = Inr out \<Longrightarrow> buf \<noteq> [] \<and> length out = length buf"
  using lowpass_stage_ok [of buf alpha] by (cases "buf = []") (auto simp: lowpass_stage_empty)

lemma lowpass_poles_ok:
  "buf \<noteq> [] \<Longrightarrow> \<exists>out. lowpass_poles n alpha buf = Inr out \<and> length out = length buf"
proof (induction n arbitrary: buf)
  case 0
  then show ?case by simp
next
  case (Suc n)
  from lowpass_stage_ok [OF Suc.prems, of alpha]
  obtain out where o: "lowpass_stage alpha buf = Inr out" "length out = length buf" by blast
  then have "out \<noteq> []" using Suc.prems by auto
  from Suc.IH [OF this] o show ?case by auto
qed

lemma lowpass_poles_Inr:
  "lowpass_poles n alpha buf = Inr out \<Longrightarrow> length out = length buf \<and> (0 < n \<longrightarrow> buf \<noteq> [])"
proof (induction n arbitrary: buf)
  case 0
  then show ?case by simp
next
  case (Suc n)
  then obtain mid where m: "lowpass_stage alpha buf = Inr mid" "lowpass_poles n alpha mid = Inr out"
    by (auto split: sum.splits)
  from lowpass_stage_Inr [OF m(1)] Suc.IH [OF m(2)] show ?case by simp
qed

lemma lowpass_alpha:
  assumes "0 < cutoff_hz" "0 < sr"
  shows "lowpass samples cutoff_hz sr poles
           = lowpass_poles (nat poles) (1 / sr / (1 / (2 * pi * cutoff_hz) + 1 / sr)) samples"
proof -
  have "0 < 1 / (2 * pi * cutoff_hz) + 1 / sr" using assms by (simp add: add_pos_pos)
  then show ?thesis using assms by (simp add: lowpass_def Let_def)
qed

text \<open>
  C5. On a non-empty buffer, with \<open>cutoff_hz > 0\<close>, \<open>sample_rate > 0\<close> and
  \<open>poles \<ge> 1\<close>, \<open>lowpass\<close> returns a buffer of the length of its input; with one pole
  the output is the one-pole recursion \<open>out[0] = in[0] * alpha\<close>,
  \<open>out[i] = out[i-1] + alpha * (in[i] - out[i-1])\<close> for \<open>i \<ge> 1\<close>, where
  \<open>alpha = dt / (rc + dt)\<close>, \<open>rc = 1 / (2 * pi * cutoff_hz)\<close>, \<open>dt = 1 / sample_rate\<close>.
\<close>

theorem lowpass_length_and_recursion:
  assumes "samples \<noteq> []" "0 < cutoff_hz" "0 < sr" "1 \<le> poles"
  shows "\<exists>out. lowpass samples cutoff_hz sr poles = Inr out \<and> length out = length samples \<and>
           (poles = 1 \<longrightarrow>
              (let rc = 1 / (2 * pi * cutoff_hz); dt = 1 / sr; alpha = dt / (rc + dt)
               in out ! 0 = samples ! 0 * alpha \<and>
                  (\<forall>i. 1 \<le> i \<and> i < length samples \<longrightarrow>
                     out ! i = out ! (i - 1) + alpha * (samples ! i - out ! (i - 1)))))"
proof (cases "poles = 1")
  case True
  let ?alpha = "1 / sr / (1 / (2 * pi * cutoff_hz) + 1 / sr)"
  from lowpass_stage_ok [OF assms(1), of ?alpha]
  obtain out where o: "lowpass_stage ?alpha samples = Inr out" "length out = length samples"
    "out ! 0 = samples ! 0 * ?alpha"
    "\<forall>i. 1 \<le> i \<and> i < length samples \<longrightarrow> out ! i = out ! (i - 1) + ?alpha * (samples ! i - out ! (i - 1))"
    by blast
  have "lowpass samples cutoff_hz sr poles = Inr out"
    using o(1) True by (simp add: lowpass_alpha [OF assms(2,3)])
  then show ?thesis using o(2,3,4) unfolding Let_def by blast
next
  case False
  from lowpass_poles_ok [OF assms(1)] show ?thesis
    using False by (simp add: lowpass_alpha [OF assms(2,3)])
qed

theorem lowpass_length_and_recursion_witness:
  "[1, 0, 0] \<noteq> ([] :: real list) \<and> (0::real) < 1800 \<and> (0::real) < 44100 \<and> (1::int) \<le> 1 \<and>
   (\<exists>out. lowpass [1, 0, 0] 1800 44100 1 = Inr out \<and> length out = 3 \<and>
      out ! 0 = 1 * (1 / 44100 / (1 / (2 * pi * 1800) + 1 / 44100)))"
proof -
  have h: "[1, 0, 0] \<noteq> ([] :: real list)" "(0::real) < 1800" "(0::real) < 44100" "(1::int) \<le> 1"
    by simp_all
  from lowpass_length_and_recursion [OF h]
  obtain out where "lowpass [1, 0, 0] 1800 44100 1 = Inr out" "length out = length [1, 0, 0 :: real]"
    "out ! 0 = [1, 0, 0] ! 0 * (1 / 44100 / (1 / (2 * pi * 1800) + 1 / 44100))"
    unfolding Let_def by blast
  then show ?thesis by simp
qed

text \<open>
  C10. With \<open>poles \<ge> 1\<close>, \<open>lowpass\<close> fails on the empty buffer (with \<open>IndexError\<close>, from
  the access to index 0, when the three divisions before the loop succeed), so whatever
  it returns is not empty.
\<close>

theorem lowpass_empty_fails:
  assumes "1 \<le> poles"
  shows "(\<exists>e. lowpass [] cutoff_hz sr poles = Inl e) \<and>
         (cutoff_hz \<noteq> 0 \<and> sr \<noteq> 0 \<and> 1 / (2 * pi * cutoff_hz) + 1 / sr \<noteq> 0 \<longrightarrow>
            lowpass [] cutoff_hz sr poles = Inl IndexError) \<and>
         (\<forall>samples out. lowpass samples cutoff_hz sr poles = Inr out \<longrightarrow> out \<noteq> [])"
proof -
  obtain n where n: "nat poles = Suc n" using assms by (cases "nat poles") auto
  have e: "lowpass_poles (nat poles) alpha [] = Inl IndexError" for alpha
    by (simp add: n lowpass_stage_empty)
  have a: "\<exists>e. lowpass [] cutoff_hz sr poles = Inl e"
    by (simp add: lowpass_def Let_def e)
  have b: "cutoff_hz \<noteq> 0 \<and> sr \<noteq> 0 \<and> 1 / (2 * pi * cutoff_hz) + 1 / sr \<noteq> 0 \<longrightarrow>
            lowpass [] cutoff_hz sr poles = Inl IndexError"
    by (simp add: lowpass_def Let_def e)
  have c: "lowpass samples cutoff_hz sr poles = Inr out \<Longrightarrow> out \<noteq> []" for samples out
  proof -
    assume "lowpass samples cutoff_hz sr poles = Inr out"
    then obtain alpha where "lowpass_poles (nat poles) alpha samples = Inr out"
      by (auto simp: lowpass_def Let_def split: if_splits)
    from lowpass_poles_Inr [OF this] n show ?thesis by auto
  qed
  show ?thesis using a b c by blast
qed

theorem lowpass_empty_fails_witness:
  "(1::int) \<le> 3 \<and> (1800::real) \<noteq> 0 \<and> (44100::real) \<noteq> 0 \<and>
   1 / (2 * pi * 1800) + 1 / 44100 \<noteq> (0::real) \<and>
   lowpass [] 1800 44100 3 = Inl IndexError"
proof -
  have h: "(1::int) \<le> 3" by simp
  have p: "(0::real) < 1 / (2 * pi * 1800) + 1 / 44100" by (simp add: add_pos_pos)
  then have q: "(1800::real) \<noteq> 0 \<and> (44100::real) \<noteq> 0 \<and> 1 / (2 * pi * 1800) + 1 / 44100 \<noteq> (0::real)"
    by simp
  with lowpass_empty_fails [OF h, of 1800 44100]
  have "lowpass [] 1800 44100 3 = Inl IndexError" by blast
  with h q show ?thesis by blast
qed

section \<open>Adding one buffer into another\<close>

lemma py_iadd_in_range:
  "0 \<le> k \<Longrightarrow> nat k < length out \<Longrightarrow> py_iadd out k v = Inr (out[nat k := out ! nat k + v])"
  by (simp add: py_iadd_def Let_def)

lemma add_loop:
  fixes out :: "'a::monoid_add list"
  assumes "0 \<le> d" "n + length xs + nat d \<le> length out"
  shows "\<exists>out'. for_each (\<lambda>(i, s) out. py_iadd out (int i + d) (g s)) (enumerate n xs) out = Inr out' \<and>
           length out' = length out \<and>
           (\<forall>j<length out. out' ! j = out ! j +
              (if n + nat d \<le> j \<and> j < n + nat d + length xs then g (xs ! (j - n - nat d)) else 0))"
  using assms
proof (induction xs arbitrary: n out)
  case Nil
  then show ?case by auto
next
  case (Cons x xs)
  let ?k = "n + nat d"
  let ?out1 = "out[?k := out ! ?k + g x]"
  have k: "nat (int n + d) = ?k" using Cons.prems(1) by (simp add: nat_add_distrib)
  have "nat (int n + d) < length out" using Cons.prems unfolding k by simp
  then have step: "py_iadd out (int n + d) (g x) = Inr ?out1"
    using Cons.prems(1) unfolding k [symmetric] by (intro py_iadd_in_range) simp_all
  have "Suc n + length xs + nat d \<le> length ?out1" using Cons.prems by simp
  from Cons.IH [OF Cons.prems(1) this]
  obtain out' where o: "for_each (\<lambda>(i, s) out. py_iadd out (int i + d) (g s)) (enumerate (Suc n) xs) ?out1 = Inr out'"
    "length out' = length ?out1"
    "\<forall>j<length ?out1. out' ! j = ?out1 ! j +
        (if Suc n + nat d \<le> j \<and> j < Suc n + nat d + length xs then g (xs ! (j - Suc n - nat d)) else 0)"
    by blast
  have run: "for_each (\<lambda>(i, s) out. py_iadd out (int i + d) (g s)) (enumerate n (x # xs)) out = Inr out'"
    using step o(1) by simp
  have val: "out' ! j = out ! j +
      (if ?k \<le> j \<and> j < ?k + length (x # xs) then g ((x # xs) ! (j - n - nat d)) else 0)"
    if j: "j < length out" for j
  proof -
    have a: "out' ! j = ?out1 ! j +
        (if Suc n + nat d \<le> j \<and> j < Suc n + nat d + length xs then g (xs ! (j - Suc n - nat d)) else 0)"
      using o(3) j by simp
    show ?thesis
    proof (cases "j = ?k")
      case True
      then show ?thesis using a j by simp
    next
      case False
      then have b: "?out1 ! j = out ! j" by simp
      show ?thesis
      proof (cases "?k < j")
        case True
        then have "j - n - nat d = Suc (j - Suc n - nat d)" by simp
        then have "(x # xs) ! (j - n - nat d) = xs ! (j - Suc n - nat d)"
          by (simp only: nth_Cons_Suc)
        then show ?thesis using a b True by auto
      next
        case f: False
        then have "j < ?k" using False by simp
        then show ?thesis using a b by simp
      qed
    qed
  qed
  show ?case using run o(2) val by simp
qed

lemma copy_loop:
  fixes out :: "'a::monoid_add list"
  assumes "length xs \<le> length out"
  shows "\<exists>out'. for_each (\<lambda>(i, s) out. py_iadd out (int i) s) (enumerate 0 xs) out = Inr out' \<and>
           length out' = length out \<and>
           (\<forall>j<length out. out' ! j = out ! j + (if j < length xs then xs ! j else 0))"
proof -
  have "0 + length xs + nat 0 \<le> length out" using assms by simp
  from add_loop [OF order_refl this, of "\<lambda>s. s"]
  obtain out' where o: "for_each (\<lambda>(i, s) out. py_iadd out (int i) s) (enumerate 0 xs) out = Inr out'"
    "length out' = length out"
    "\<forall>j<length out. out' ! j = out ! j + (if j < length xs then xs ! j else 0)"
    by auto
  then show ?thesis by blast
qed


section \<open>The reverb\<close>

lemma copy_loop_of_real:
  assumes "length xs \<le> length out"
  shows "\<exists>out'. for_each (\<lambda>(i, s) out. py_iadd out (int i) (complex_of_real s))
                    (enumerate 0 xs) out = Inr out' \<and>
           length out' = length out \<and>
           (\<forall>j<length out. out' ! j = out ! j + (if j < length xs then of_real (xs ! j) else 0))"
proof -
  have "0 + length xs + nat 0 \<le> length out" using assms by simp
  from add_loop [OF order_refl this, of complex_of_real]
  obtain out' where o:
    "for_each (\<lambda>(i, s) out. py_iadd out (int i) (complex_of_real s)) (enumerate 0 xs) out = Inr out'"
    "length out' = length out"
    "\<forall>j<length out. out' ! j = out ! j + (if j < length xs then of_real (xs ! j) else 0)"
    by auto
  then show ?thesis by blast
qed

lemma py_max_Max: "xs \<noteq> [] \<Longrightarrow> py_max xs = Inr (Max (set xs))"
  by (cases xs) (simp_all add: Max.set_eq_fold [symmetric])

lemma reverb_tap_ok:
  assumes "hd delays_ms \<noteq> 0" "0 \<le> d_ms / hd delays_ms" "0 \<le> py_int (sr * d_ms / 1000)"
    "length samples + nat (py_int (sr * d_ms / 1000)) \<le> length out"
  shows "\<exists>out'. reverb_tap samples sr decay delays_ms d_ms out = Inr out' \<and>
           length out' = length out \<and>
           (\<forall>j<length out. out' ! j = out ! j + reverb_tap_term samples sr decay delays_ms d_ms j)"
proof -
  let ?d = "py_int (sr * d_ms / 1000)"
  let ?a = "py_pow_value decay (d_ms / hd delays_ms)"
  have "0 + length samples + nat ?d \<le> length out" using assms(4) by simp
  from add_loop [OF assms(3) this, of "\<lambda>s. of_real s * ?a"]
  obtain out' where o:
    "for_each (\<lambda>(i, s) out. py_iadd out (int i + ?d) (of_real s * ?a)) (enumerate 0 samples) out
       = Inr out'"
    "length out' = length out"
    "\<forall>j<length out. out' ! j = out ! j +
       (if 0 + nat ?d \<le> j \<and> j < 0 + nat ?d + length samples
        then of_real (samples ! (j - 0 - nat ?d)) * ?a else 0)"
    by blast
  have pw: "py_pow decay (d_ms / hd delays_ms) = Inr ?a"
    using assms(2) by (simp add: py_pow_def)
  have run: "reverb_tap samples sr decay delays_ms d_ms out = Inr out'"
    using assms(1) o(1) by (simp add: reverb_tap_def pw Let_def)
  have "out' ! j = out ! j + reverb_tap_term samples sr decay delays_ms d_ms j"
    if "j < length out" for j
  proof -
    have a: "out' ! j = out ! j +
       (if nat ?d \<le> j \<and> j < nat ?d + length samples
        then of_real (samples ! (j - nat ?d)) * ?a else 0)"
      using o(3) that by simp
    show ?thesis
    proof (cases "?d \<le> int j \<and> int j - ?d < int (length samples)")
      case True
      then have "nat ?d \<le> j" "j < nat ?d + length samples" "nat (int j - ?d) = j - nat ?d"
        using assms(3) by auto
      then have "out' ! j = out ! j + of_real (samples ! nat (int j - ?d)) * ?a"
        using a by simp
      moreover have "reverb_tap_term samples sr decay delays_ms d_ms j
                       = of_real (samples ! nat (int j - ?d)) * ?a"
        unfolding reverb_tap_term_def Let_def using True by (rule if_P)
      ultimately show ?thesis by simp
    next
      case False
      then have "\<not> (nat ?d \<le> j \<and> j < nat ?d + length samples)"
        using assms(3) by auto
      then have "out' ! j = out ! j" using a by (simp only: if_False add_0_right)
      moreover have "reverb_tap_term samples sr decay delays_ms d_ms j = 0"
        unfolding reverb_tap_term_def Let_def using False by (rule if_not_P)
      ultimately show ?thesis by simp
    qed
  qed
  then show ?thesis using run o(2) by blast
qed

lemma reverb_taps_ok:
  assumes "hd delays_ms \<noteq> 0"
    "\<forall>d_ms\<in>set ds. 0 \<le> d_ms / hd delays_ms \<and> 0 \<le> py_int (sr * d_ms / 1000) \<and>
        length samples + nat (py_int (sr * d_ms / 1000)) \<le> length out"
  shows "\<exists>out'. for_each (reverb_tap samples sr decay delays_ms) ds out = Inr out' \<and>
           length out' = length out \<and>
           (\<forall>j<length out. out' ! j = out ! j
              + sum_list (map (\<lambda>d_ms. reverb_tap_term samples sr decay delays_ms d_ms j) ds))"
  using assms(2)
proof (induction ds arbitrary: out)
  case Nil
  then show ?case by simp
next
  case (Cons d_ms ds)
  have "0 \<le> d_ms / hd delays_ms" "0 \<le> py_int (sr * d_ms / 1000)"
    "length samples + nat (py_int (sr * d_ms / 1000)) \<le> length out"
    using Cons.prems by simp_all
  from reverb_tap_ok [OF assms(1) this]
  obtain out1 where o1: "reverb_tap samples sr decay delays_ms d_ms out = Inr out1"
    "length out1 = length out"
    "\<forall>j<length out. out1 ! j = out ! j + reverb_tap_term samples sr decay delays_ms d_ms j"
    by blast
  have "\<forall>d_ms\<in>set ds. 0 \<le> d_ms / hd delays_ms \<and> 0 \<le> py_int (sr * d_ms / 1000) \<and>
          length samples + nat (py_int (sr * d_ms / 1000)) \<le> length out1"
    using Cons.prems o1(2) by simp
  from Cons.IH [OF this]
  obtain out' where o: "for_each (reverb_tap samples sr decay delays_ms) ds out1 = Inr out'"
    "length out' = length out1"
    "\<forall>j<length out1. out' ! j = out1 ! j
        + sum_list (map (\<lambda>d_ms. reverb_tap_term samples sr decay delays_ms d_ms j) ds)"
    by blast
  have "for_each (reverb_tap samples sr decay delays_ms) (d_ms # ds) out = Inr out'"
    using o1(1) o(1) by simp
  moreover have "length out' = length out" using o(2) o1(2) by simp
  moreover have "\<forall>j<length out. out' ! j = out ! j
      + sum_list (map (\<lambda>d_ms. reverb_tap_term samples sr decay delays_ms d_ms j) (d_ms # ds))"
    using o(3) o1(2,3) by (simp add: add.assoc)
  ultimately show ?case by blast
qed

lemma py_int_frames_Max:
  assumes "0 < sr" "delays_ms \<noteq> []"
  shows "py_int (sr * Max (set delays_ms) / 1000)
           = Max ((\<lambda>d_ms. py_int (sr * d_ms / 1000)) ` set delays_ms)"
proof -
  have "mono (\<lambda>d_ms. py_int (sr * d_ms / 1000))"
    using assms(1) by (intro monoI py_int_mono) (simp add: divide_right_mono)
  from mono_Max_commute [OF this, of "set delays_ms"] assms(2) show ?thesis by simp
qed

lemma of_real_sum_list:
  "complex_of_real (sum_list xs) = sum_list (map complex_of_real xs)"
  by (induction xs) simp_all

lemma reverb_spec_positive_decay:
  assumes "0 < decay"
  shows "reverb_spec samples sr decay delays_ms j
           = of_real (reverb_spec_real samples sr decay delays_ms j)"
proof -
  have t: "reverb_tap_term samples sr decay delays_ms d_ms j
             = of_real (reverb_tap_term_real samples sr decay delays_ms d_ms j)" for d_ms
    using assms by (simp add: reverb_tap_term_def reverb_tap_term_real_def py_pow_value_def Let_def)
  show ?thesis
    by (simp add: reverb_spec_def reverb_spec_real_def t of_real_sum_list comp_def)
qed

lemma reverb_correct:
  assumes "0 < sr" "delays_ms \<noteq> []" "\<forall>d_ms\<in>set delays_ms. 0 \<le> d_ms"
    "hd delays_ms \<noteq> 0" "0 \<le> tail_s"
  shows "\<exists>out. reverb samples sr decay delays_ms tail_s = Inr out \<and>
           length out = length samples
                          + nat (Max ((\<lambda>d_ms. py_int (sr * d_ms / 1000)) ` set delays_ms))
                          + nat (py_int (sr * tail_s)) \<and>
           (\<forall>j<length out. out ! j = reverb_spec samples sr decay delays_ms j) \<and>
           (0 < decay \<longrightarrow>
              (\<forall>j<length out. out ! j = of_real (reverb_spec_real samples sr decay delays_ms j)))"
proof -
  let ?m = "py_int (sr * Max (set delays_ms) / 1000)"
  let ?t = "py_int (sr * tail_s)"
  let ?n = "nat (int (length samples) + ?m + ?t)"
  let ?out0 = "replicate ?n (0::complex)"
  have hd0: "0 < hd delays_ms"
  proof -
    have "hd delays_ms \<in> set delays_ms" using assms(2) by simp
    then have "0 \<le> hd delays_ms" using assms(3) by blast
    then show ?thesis using assms(4) by simp
  qed
  have fr: "0 \<le> py_int (sr * d_ms / 1000) \<and> py_int (sr * d_ms / 1000) \<le> ?m"
    if "d_ms \<in> set delays_ms" for d_ms
  proof -
    have "0 \<le> sr * d_ms / 1000" using assms(1,3) that by simp
    moreover have "d_ms \<le> Max (set delays_ms)" using that by simp
    then have "sr * d_ms / 1000 \<le> sr * Max (set delays_ms) / 1000"
      using assms(1) by (simp add: divide_right_mono)
    ultimately show ?thesis by (simp add: py_int_nonneg py_int_mono)
  qed
  have m0: "0 \<le> ?m" using fr [of "hd delays_ms"] assms(2) by auto
  have t0: "0 \<le> ?t" using assms(1,5) by (simp add: py_int_nonneg)
  have n: "?n = length samples + nat ?m + nat ?t" using m0 t0 by (simp add: nat_add_distrib)
  have "length samples \<le> length ?out0" using n by simp
  from copy_loop_of_real [OF this]
  obtain out1 where o1:
    "for_each (\<lambda>(i, s) out. py_iadd out (int i) (complex_of_real s)) (enumerate 0 samples) ?out0
       = Inr out1"
    "length out1 = ?n"
    "\<forall>j<?n. out1 ! j = ?out0 ! j + (if j < length samples then of_real (samples ! j) else 0)"
    by auto
  have "\<forall>d_ms\<in>set delays_ms. 0 \<le> d_ms / hd delays_ms \<and> 0 \<le> py_int (sr * d_ms / 1000) \<and>
          length samples + nat (py_int (sr * d_ms / 1000)) \<le> length out1"
  proof
    fix d_ms assume d: "d_ms \<in> set delays_ms"
    from fr [OF d] have "nat (py_int (sr * d_ms / 1000)) \<le> nat ?m" by (simp add: nat_mono)
    moreover have "0 \<le> d_ms / hd delays_ms" using assms(3) d hd0 by simp
    ultimately show "0 \<le> d_ms / hd delays_ms \<and> 0 \<le> py_int (sr * d_ms / 1000) \<and>
          length samples + nat (py_int (sr * d_ms / 1000)) \<le> length out1"
      using fr [OF d] n o1(2) by simp
  qed
  from reverb_taps_ok [OF assms(4) this]
  obtain out where o:
    "for_each (reverb_tap samples sr decay delays_ms) delays_ms out1 = Inr out"
    "length out = length out1"
    "\<forall>j<length out1. out ! j = out1 ! j
        + sum_list (map (\<lambda>d_ms. reverb_tap_term samples sr decay delays_ms d_ms j) delays_ms)"
    by blast
  have run: "reverb samples sr decay delays_ms tail_s = Inr out"
    using o1(1) o(1) by (simp add: reverb_def py_max_Max [OF assms(2)] Let_def)
  have len: "length out = length samples
      + nat (Max ((\<lambda>d_ms. py_int (sr * d_ms / 1000)) ` set delays_ms)) + nat ?t"
    using o(2) o1(2) n by (simp add: py_int_frames_Max [OF assms(1,2)])
  have val: "out ! j = reverb_spec samples sr decay delays_ms j" if "j < length out" for j
    using that o(2,3) o1(2,3) by (simp add: reverb_spec_def)
  have val_real: "out ! j = of_real (reverb_spec_real samples sr decay delays_ms j)"
    if "0 < decay" "j < length out" for j
    using val [OF that(2)] reverb_spec_positive_decay [OF that(1)] by simp
  show ?thesis using run len val val_real by blast
qed

text \<open>
  C4, as the code has it. For a positive sample rate, any decay, a non-empty list of
  non-negative delays whose first is not 0, and \<open>tail_s \<ge> 0\<close>, \<open>reverb\<close> returns a
  buffer of length \<open>len(input) + max(delay frames) + int(sr * tail_s)\<close>, where a tap's
  delay frames are \<open>int(sr * d_ms / 1000)\<close> (truncated, not rounded), and every output
  sample is the dry input plus the sum of the taps' delayed input samples, each times
  \<open>decay ** (d_ms / delays_ms[0])\<close>; a tap of \<open>d\<close> frames adds nothing before index
  \<open>d\<close>. For a positive decay every sample is the real number of the stated formula.
\<close>

theorem reverb_taps_and_length:
  assumes "0 < sr" "delays_ms \<noteq> []" "\<forall>d_ms\<in>set delays_ms. 0 \<le> d_ms"
    "hd delays_ms \<noteq> 0" "0 \<le> tail_s"
  shows "\<exists>out. reverb samples sr decay delays_ms tail_s = Inr out \<and>
           length out = length samples
                          + nat (Max ((\<lambda>d_ms. py_int (sr * d_ms / 1000)) ` set delays_ms))
                          + nat (py_int (sr * tail_s)) \<and>
           (\<forall>j<length out. out ! j = reverb_spec samples sr decay delays_ms j) \<and>
           (0 < decay \<longrightarrow>
              (\<forall>j<length out. out ! j = of_real (reverb_spec_real samples sr decay delays_ms j)))"
  using assms by (rule reverb_correct)

theorem reverb_taps_and_length_witness:
  "(0::real) < 1000 \<and> [1, 2] \<noteq> ([]::real list) \<and>
   (0::real) \<le> 1 \<and> (0::real) \<le> 2 \<and> hd [1, 2::real] \<noteq> 0 \<and> (0::real) \<le> 0 \<and>
   (0::real) < 1/2 \<and>
   (\<exists>out. reverb [1, 2] 1000 (1/2) [1, 2] 0 = Inr out \<and> length out = 4 \<and>
      out ! 0 = 1 \<and> out ! 1 = 5/2 \<and> out ! 2 = 5/4 \<and> out ! 3 = 1/2) \<and>
   (\<exists>out. reverb [1, 2] 1000 0 [1, 2] 0 = Inr out \<and> length out = 4 \<and>
      out ! 0 = 1 \<and> out ! 1 = 2 \<and> out ! 2 = 0 \<and> out ! 3 = 0) \<and>
   (\<exists>out. reverb [1] 1000 (-1/2) [2, 3] 0 = Inr out \<and> length out = 4 \<and>
      out ! 0 = 1 \<and> out ! 2 = -1/2 \<and>
      out ! 3 = of_real ((1/2) powr (3/2)) * cis (pi * (3/2)))"
proof -
  have h: "(0::real) < 1000" "[1, 2] \<noteq> ([]::real list)"
    "\<forall>d_ms\<in>set [1, 2::real]. 0 \<le> d_ms" "hd [1, 2::real] \<noteq> 0" "(0::real) \<le> 0"
    by simp_all
  have p: "(0::real) < 1/2" by simp
  from reverb_taps_and_length [OF h, of "[1, 2]" "1/2"] p
  obtain out where o: "reverb [1, 2] 1000 (1/2) [1, 2] 0 = Inr out"
    "length out = 4"
    "\<forall>j<length out. out ! j = of_real (reverb_spec_real [1, 2] 1000 (1/2) [1, 2] j)"
    by (auto simp: py_int_def)
  have "out ! 0 = 1" "out ! 1 = 5/2" "out ! 2 = 5/4" "out ! 3 = 1/2"
    using o(2,3)
    by (simp_all add: reverb_spec_real_def reverb_tap_term_real_def py_int_def power2_eq_square)
  then have a: "\<exists>out. reverb [1, 2] 1000 (1/2) [1, 2] 0 = Inr out \<and> length out = 4 \<and>
      out ! 0 = 1 \<and> out ! 1 = 5/2 \<and> out ! 2 = 5/4 \<and> out ! 3 = 1/2"
    using o(1,2) by blast
  from reverb_taps_and_length [OF h, of "[1, 2]" 0]
  obtain out0 where o0: "reverb [1, 2] 1000 0 [1, 2] 0 = Inr out0"
    "length out0 = 4" "\<forall>j<length out0. out0 ! j = reverb_spec [1, 2] 1000 0 [1, 2] j"
    by (auto simp: py_int_def)
  have "out0 ! 0 = 1" "out0 ! 1 = 2" "out0 ! 2 = 0" "out0 ! 3 = 0"
    using o0(2,3)
    by (simp_all add: reverb_spec_def reverb_tap_term_def py_pow_value_def py_int_def)
  then have b: "\<exists>out. reverb [1, 2] 1000 0 [1, 2] 0 = Inr out \<and> length out = 4 \<and>
      out ! 0 = 1 \<and> out ! 1 = 2 \<and> out ! 2 = 0 \<and> out ! 3 = 0"
    using o0(1,2) by blast
  have h': "(0::real) < 1000" "[2, 3] \<noteq> ([]::real list)"
    "\<forall>d_ms\<in>set [2, 3::real]. 0 \<le> d_ms" "hd [2, 3::real] \<noteq> 0" "(0::real) \<le> 0"
    by simp_all
  from reverb_taps_and_length [OF h', of "[1]" "-1/2"]
  obtain outn where n: "reverb [1] 1000 (-1/2) [2, 3] 0 = Inr outn"
    "length outn = 4" "\<forall>j<length outn. outn ! j = reverb_spec [1] 1000 (-1/2) [2, 3] j"
    by (auto simp: py_int_def)
  have fl: "\<lfloor>3 / 2 :: real\<rfloor> = 1" by simp
  have "outn ! 0 = 1" "outn ! 2 = -1/2"
    "outn ! 3 = of_real ((1/2) powr (3/2)) * cis (pi * (3/2))"
    using n(2,3)
    by (simp_all add: reverb_spec_def reverb_tap_term_def py_pow_value_def py_int_def fl)
  then have c: "\<exists>out. reverb [1] 1000 (-1/2) [2, 3] 0 = Inr out \<and> length out = 4 \<and>
      out ! 0 = 1 \<and> out ! 2 = -1/2 \<and>
      out ! 3 = of_real ((1/2) powr (3/2)) * cis (pi * (3/2))"
    using n(1,2) by blast
  show ?thesis using h(1,2,4,5) p a b c by simp
qed

text \<open>
  C4 as stated fails. The tap of 89 ms at 44100 Hz is delayed by 3924 frames, not by
  the rounded 3925, and the buffer is one sample shorter than stated. A first delay of
  0 divides by zero, a negative tail makes the buffer too short for the dry copy, and a
  negative delay wraps around to the other end of the buffer.
\<close>

theorem reverb_taps_and_length_counterexample:
  "(\<exists>out. reverb [1] 44100 0.35 [89] 1.5 = Inr out \<and> length out = 70075 \<and> out ! 3924 = 0.35) \<and>
   round (44100 * 89 / 1000 :: real) = 3925 \<and>
   1 + nat (round (44100 * 89 / 1000 :: real)) + nat (round (44100 * 1.5 :: real)) = 70076 \<and>
   reverb [1] 1000 0.5 [0, 1] 0 = Inl ZeroDivisionError \<and>
   reverb [1] 1000 0.5 [1] (-1) = Inl IndexError \<and>
   reverb [1] 1000 0.5 [1, -2] 0 = Inr [5, 0.5] \<and>
   reverb_spec [1] 1000 0.5 [1, -2] 0 = 1"
proof -
  have h: "(0::real) < 44100" "[89] \<noteq> ([]::real list)"
    "\<forall>d_ms\<in>set [89::real]. 0 \<le> d_ms" "hd [89::real] \<noteq> 0" "(0::real) \<le> 1.5"
    by simp_all
  from reverb_correct [OF h, of "[1]" "0.35"]
  obtain out where o: "reverb [1] 44100 0.35 [89] 1.5 = Inr out"
    "length out = 70075" "\<forall>j<length out. out ! j = reverb_spec [1] 44100 0.35 [89] j"
    by (auto simp: py_int_def)
  have "out ! 3924 = 0.35"
    using o(2,3) by (simp add: reverb_spec_def reverb_tap_term_def py_pow_value_def py_int_def)
  then have a: "\<exists>out. reverb [1] 44100 0.35 [89] 1.5 = Inr out \<and> length out = 70075 \<and> out ! 3924 = 0.35"
    using o(1,2) by blast
  have b: "round (44100 * 89 / 1000 :: real) = 3925"
    "1 + nat (round (44100 * 89 / 1000 :: real)) + nat (round (44100 * 1.5 :: real)) = 70076"
    by (simp_all add: round_def)
  have c: "reverb [1] 1000 0.5 [0, 1] 0 = Inl ZeroDivisionError"
    by (simp add: reverb_def reverb_tap_def py_iadd_def py_int_def Let_def enumerate_eq_zip)
  have d: "reverb [1] 1000 0.5 [1] (-1) = Inl IndexError"
    by (simp add: reverb_def reverb_tap_def py_iadd_def py_int_def Let_def enumerate_eq_zip)
  have f: "reverb [1] 1000 0.5 [1, -2] 0 = Inr [5, 0.5]"
    by (simp add: reverb_def reverb_tap_def py_iadd_def py_int_def py_pow_def py_pow_value_def
        Let_def enumerate_eq_zip powr_minus numeral_2_eq_2 power2_eq_square)
  have g: "reverb_spec [1] 1000 0.5 [1, -2] 0 = 1"
    by (simp add: reverb_spec_def reverb_tap_term_def py_int_def)
  show ?thesis using a b c d f g by blast
qed

section \<open>Chord mixing\<close>

lemma mix_voices:
  assumes "\<forall>v\<in>set vs. length v \<le> length mixed"
  shows "\<exists>out. for_each (\<lambda>voice mixed.
                     for_each (\<lambda>(i, s) mixed. py_iadd mixed (int i) s) (enumerate 0 voice) mixed)
                   vs mixed = Inr out \<and>
           length out = length mixed \<and>
           (\<forall>j<length mixed. out ! j = mixed ! j
              + sum_list (map (\<lambda>v. if j < length v then v ! j else 0) vs))"
  using assms
proof (induction vs arbitrary: mixed)
  case Nil
  then show ?case by simp
next
  case (Cons v vs)
  have "length v \<le> length mixed" using Cons.prems by simp
  from copy_loop [OF this]
  obtain m1 where m1:
    "for_each (\<lambda>(i, s) mixed. py_iadd mixed (int i) s) (enumerate 0 v) mixed = Inr m1"
    "length m1 = length mixed"
    "\<forall>j<length mixed. m1 ! j = mixed ! j + (if j < length v then v ! j else 0)"
    by blast
  have "\<forall>v\<in>set vs. length v \<le> length m1" using Cons.prems m1(2) by simp
  from Cons.IH [OF this]
  obtain out where o:
    "for_each (\<lambda>voice mixed.
        for_each (\<lambda>(i, s) mixed. py_iadd mixed (int i) s) (enumerate 0 voice) mixed) vs m1 = Inr out"
    "length out = length m1"
    "\<forall>j<length m1. out ! j = m1 ! j + sum_list (map (\<lambda>v. if j < length v then v ! j else 0) vs)"
    by blast
  have "for_each (\<lambda>voice mixed.
        for_each (\<lambda>(i, s) mixed. py_iadd mixed (int i) s) (enumerate 0 voice) mixed) (v # vs) mixed
          = Inr out"
    using m1(1) o(1) by simp
  moreover have "length out = length mixed" using o(2) m1(2) by simp
  moreover have "\<forall>j<length mixed. out ! j = mixed ! j
      + sum_list (map (\<lambda>v. if j < length v then v ! j else 0) (v # vs))"
    using o(3) m1(2,3) by (simp add: add.assoc)
  ultimately show ?case by blast
qed

lemma gen_chord_mixed_correct:
  assumes "freqs \<noteq> []"
  shows "\<exists>mixed. gen_chord_mixed synth_fn freqs duration_ms volume = Inr mixed \<and>
           (let voices = map (\<lambda>f. synth_fn f duration_ms (volume / real (length freqs)) SR) freqs
            in chord_voices synth_fn freqs duration_ms volume = voices \<and>
               length mixed = Max (length ` set voices) \<and>
               (\<forall>j<length mixed.
                  mixed ! j = sum_list (map (\<lambda>v. if j < length v then v ! j else 0) voices)) \<and>
               (\<forall>v\<in>set voices. length v \<le> length mixed))"
proof -
  let ?voices = "map (\<lambda>f. synth_fn f duration_ms (volume / real (length freqs)) SR) freqs"
  let ?n = "Max (length ` set ?voices)"
  have cv: "chord_voices synth_fn freqs duration_ms volume = ?voices"
    by (simp add: chord_voices_def Let_def)
  have ne: "map length ?voices \<noteq> []" using assms by simp
  have mx: "py_max (map length ?voices) = Inr ?n"
    using py_max_Max [OF ne] by (simp only: set_map)
  have le: "\<forall>v\<in>set ?voices. length v \<le> length (replicate ?n (0::real))"
    by simp
  from mix_voices [OF le]
  obtain mixed where m:
    "for_each (\<lambda>voice mixed.
        for_each (\<lambda>(i, s) mixed. py_iadd mixed (int i) s) (enumerate 0 voice) mixed)
      ?voices (replicate ?n 0) = Inr mixed"
    "length mixed = ?n"
    "\<forall>j<?n. mixed ! j = replicate ?n 0 ! j
        + sum_list (map (\<lambda>v. if j < length v then v ! j else 0) ?voices)"
    by auto
  have run: "gen_chord_mixed synth_fn freqs duration_ms volume = Inr mixed"
    using assms m(1) mx unfolding gen_chord_mixed_def cv Let_def by simp
  have val: "\<forall>j<length mixed.
      mixed ! j = sum_list (map (\<lambda>v. if j < length v then v ! j else 0) ?voices)"
    using m(2,3) by simp
  have le': "\<forall>v\<in>set ?voices. length v \<le> length mixed"
    using m(2) by simp
  show ?thesis unfolding Let_def using run cv m(2) val le' by blast
qed

text \<open>
  C9. For a chord of \<open>n \<ge> 1\<close> frequencies at total volume \<open>V\<close>, every voice is the
  instrument's buffer at volume \<open>V / n\<close> and the common duration, at 44100 Hz; the mixed
  buffer is as long as the longest voice, every sample of it is the sum of the voices'
  samples at that index (a voice counting as 0 past its end), and no voice is longer
  than the mixed buffer.
\<close>

theorem chord_mix_longest_voice_sum:
  assumes "freqs \<noteq> []"
  shows "\<exists>mixed. gen_chord_mixed synth_fn freqs duration_ms volume = Inr mixed \<and>
           (let voices = map (\<lambda>f. synth_fn f duration_ms (volume / real (length freqs)) SR) freqs
            in chord_voices synth_fn freqs duration_ms volume = voices \<and>
               length mixed = Max (length ` set voices) \<and>
               (\<forall>j<length mixed.
                  mixed ! j = sum_list (map (\<lambda>v. if j < length v then v ! j else 0) voices)) \<and>
               (\<forall>v\<in>set voices. length v \<le> length mixed))"
  using assms by (rule gen_chord_mixed_correct)

theorem chord_mix_longest_voice_sum_witness:
  "[262, 330, 392] \<noteq> ([]::real list) \<and>
   (\<exists>mixed. gen_chord_mixed glockenspiel [262, 330, 392] 800 0.3 = Inr mixed \<and>
      length mixed = 35280 \<and>
      length (glockenspiel 330 800 (0.3 / 3) SR) \<le> length mixed \<and>
      mixed ! 0 = glockenspiel 262 800 (0.3 / 3) SR ! 0 + glockenspiel 330 800 (0.3 / 3) SR ! 0
                    + glockenspiel 392 800 (0.3 / 3) SR ! 0)"
proof -
  have h: "[262, 330, 392] \<noteq> ([]::real list)" by simp
  have len: "length (glockenspiel f 800 v SR) = 35280" for f v
    by (simp add: len_glockenspiel SR_def py_int_def)
  from chord_mix_longest_voice_sum [OF h, of glockenspiel 800 "0.3"]
  obtain mixed where m: "gen_chord_mixed glockenspiel [262, 330, 392] 800 0.3 = Inr mixed"
    "length mixed = 35280"
    "\<forall>j<length mixed. mixed ! j
       = sum_list (map (\<lambda>v. if j < length v then v ! j else 0)
           (map (\<lambda>f. glockenspiel f 800 (0.3 / real (length [262, 330, 392 :: real])) SR)
              [262, 330, 392]))"
    unfolding Let_def by (auto simp: len)
  have "mixed ! 0 = glockenspiel 262 800 (0.3 / 3) SR ! 0 + glockenspiel 330 800 (0.3 / 3) SR ! 0
                    + glockenspiel 392 800 (0.3 / 3) SR ! 0"
    using m(2,3) by (simp add: len)
  then show ?thesis using h m(1,2) len by simp
qed

section \<open>The silence trimmer\<close>

lemma py_slice_split: "py_slice_to xs b @ py_slice_from xs b = xs"
  by (simp add: py_slice_to_def py_slice_from_def)

lemma py_slice_to_shorter:
  assumes "0 \<le> chunk" "chunk < int (length out)"
  shows "length (py_slice_to out (- chunk)) < length out"
proof (cases "chunk = 0")
  case True
  then show ?thesis using assms by (simp add: py_slice_to_def)
next
  case False
  then show ?thesis using assms by (simp add: py_slice_to_def)
qed

lemma trim_silence_returns:
  assumes "0 \<le> chunk"
  shows "\<exists>ys. trim_silence out threshold chunk = Some ys"
proof (induction "length out" arbitrary: out rule: less_induct)
  case less
  show ?case
  proof (cases "chunk < int (length out) \<and>
      list_all (\<lambda>s. \<bar>s\<bar> < threshold) (py_slice_from out (- chunk))")
    case True
    then have "length (py_slice_to out (- chunk)) < length out"
      using assms by (intro py_slice_to_shorter) simp_all
    from less [OF this] obtain ys where
      "trim_silence (py_slice_to out (- chunk)) threshold chunk = Some ys" by blast
    then show ?thesis using True by (subst trim_silence.simps) simp
  next
    case False
    then show ?thesis by (subst trim_silence.simps) auto
  qed
qed

lemma trim_silence_stops:
  "\<not> (chunk < int (length out) \<and>
      list_all (\<lambda>s. \<bar>s\<bar> < threshold) (py_slice_from out (- chunk))) \<Longrightarrow>
   trim_silence out threshold chunk = Some out"
  by (subst trim_silence.simps) auto

lemma trim_silence_result:
  assumes ret: "trim_silence out threshold chunk = Some ys"
  shows "(\<exists>removed. out = ys @ removed \<and> (\<forall>s\<in>set removed. \<bar>s\<bar> < threshold)) \<and>
         \<not> (chunk < int (length ys) \<and>
              list_all (\<lambda>s. \<bar>s\<bar> < threshold) (py_slice_from ys (- chunk)))"
proof (rule trim_silence.raw_induct [where P = "\<lambda>out threshold chunk ys.
      (\<exists>removed. out = ys @ removed \<and> (\<forall>s\<in>set removed. \<bar>s\<bar> < threshold)) \<and>
      \<not> (chunk < int (length ys) \<and>
           list_all (\<lambda>s. \<bar>s\<bar> < threshold) (py_slice_from ys (- chunk)))", OF _ ret])
  fix f :: "real list \<Rightarrow> real \<Rightarrow> int \<Rightarrow> real list option"
  fix out threshold chunk ys
  assume IH: "\<And>out threshold chunk ys. f out threshold chunk = Some ys \<Longrightarrow>
      (\<exists>removed. out = ys @ removed \<and> (\<forall>s\<in>set removed. \<bar>s\<bar> < threshold)) \<and>
      \<not> (chunk < int (length ys) \<and>
           list_all (\<lambda>s. \<bar>s\<bar> < threshold) (py_slice_from ys (- chunk)))"
    and eq: "(if chunk < int (length out) \<and>
                 list_all (\<lambda>s. \<bar>s\<bar> < threshold) (py_slice_from out (- chunk))
              then f (py_slice_to out (- chunk)) threshold chunk
              else Some out) = Some ys"
  show "(\<exists>removed. out = ys @ removed \<and> (\<forall>s\<in>set removed. \<bar>s\<bar> < threshold)) \<and>
      \<not> (chunk < int (length ys) \<and>
           list_all (\<lambda>s. \<bar>s\<bar> < threshold) (py_slice_from ys (- chunk)))"
  proof (cases "chunk < int (length out) \<and>
      list_all (\<lambda>s. \<bar>s\<bar> < threshold) (py_slice_from out (- chunk))")
    case True
    with eq have "f (py_slice_to out (- chunk)) threshold chunk = Some ys" by simp
    from IH [OF this] obtain removed where r:
      "py_slice_to out (- chunk) = ys @ removed" "\<forall>s\<in>set removed. \<bar>s\<bar> < threshold"
      and stop: "\<not> (chunk < int (length ys) \<and>
           list_all (\<lambda>s. \<bar>s\<bar> < threshold) (py_slice_from ys (- chunk)))"
      by blast
    have "out = ys @ (removed @ py_slice_from out (- chunk))"
      using py_slice_split [of out "- chunk"] r(1) by simp
    moreover have "\<forall>s\<in>set (removed @ py_slice_from out (- chunk)). \<bar>s\<bar> < threshold"
      using r(2) True by (auto simp: list_all_iff)
    ultimately show ?thesis using stop by blast
  next
    case False
    with eq have "ys = out" by auto
    then show ?thesis using False by simp
  qed
qed

text \<open>
  C6. Whatever \<open>trim_silence\<close> returns is a prefix of its input, and every sample it
  removed has an absolute value below the threshold: no chunk with a sample at or above
  the threshold is removed. Trimming the result again returns it unchanged, so applying
  \<open>trim_silence\<close> twice is the same as applying it once. For a chunk size \<open>\<ge> 0\<close> the
  loop ends on every buffer.
\<close>

theorem trim_silence_safe_idempotent:
  "(0 \<le> chunk \<longrightarrow> (\<exists>ys. trim_silence samples threshold chunk = Some ys)) \<and>
   (\<forall>ys. trim_silence samples threshold chunk = Some ys \<longrightarrow>
      (\<exists>removed. samples = ys @ removed \<and> (\<forall>s\<in>set removed. \<bar>s\<bar> < threshold)) \<and>
      trim_silence ys threshold chunk = Some ys) \<and>
   Option.bind (trim_silence samples threshold chunk) (\<lambda>ys. trim_silence ys threshold chunk)
     = trim_silence samples threshold chunk"
proof -
  have a: "0 \<le> chunk \<longrightarrow> (\<exists>ys. trim_silence samples threshold chunk = Some ys)"
    using trim_silence_returns by blast
  have b: "(\<exists>removed. samples = ys @ removed \<and> (\<forall>s\<in>set removed. \<bar>s\<bar> < threshold)) \<and>
      trim_silence ys threshold chunk = Some ys"
    if "trim_silence samples threshold chunk = Some ys" for ys
    using trim_silence_result [OF that] trim_silence_stops [of chunk ys threshold] by blast
  have c: "Option.bind (trim_silence samples threshold chunk) (\<lambda>ys. trim_silence ys threshold chunk)
     = trim_silence samples threshold chunk"
  proof (cases "trim_silence samples threshold chunk")
    case None
    then show ?thesis by simp
  next
    case (Some ys)
    then show ?thesis using b [OF Some] by simp
  qed
  show ?thesis using a b c by blast
qed

theorem trim_silence_safe_idempotent_witness:
  "(0::int) \<le> 2 \<and>
   trim_silence [1, 0, 0, 0, 0, 0] (1/2) 2 = Some [1, 0] \<and>
   [1, 0, 0, 0, 0, 0] = [1, 0] @ [0, 0, 0, 0 :: real] \<and>
   \<bar>0::real\<bar> < 1/2 \<and>
   trim_silence [1, 0] (1/2) 2 = Some [1, 0]"
proof -
  have r: "trim_silence [1, 0, 0, 0, 0, 0] (1/2) 2 = Some [1, 0]"
    by (simp add: trim_silence.simps py_slice_from_def py_slice_to_def)
  from trim_silence_safe_idempotent [of 2 "[1, 0, 0, 0, 0, 0]" "1/2"] r
  have "trim_silence [1, 0] (1/2) 2 = Some [1, 0]" by blast
  then show ?thesis using r by simp
qed


text \<open>
  With a negative chunk the loop does not end once the samples from index \<open>-chunk\<close> on
  are all silent: \<open>out[:-chunk]\<close> keeps the first \<open>-chunk\<close> samples for ever.
\<close>

lemma trim_silence_negative_chunk:
  assumes "chunk < 0" "list_all (\<lambda>s. \<bar>s\<bar> < threshold) (py_slice_from out (- chunk))"
  shows "trim_silence out threshold chunk = None"
proof (cases "trim_silence out threshold chunk")
  case None
  then show ?thesis .
next
  case (Some ys)
  have "\<not> (chunk < 0 \<and> list_all (\<lambda>s. \<bar>s\<bar> < threshold) (py_slice_from out (- chunk)))"
  proof (rule trim_silence.raw_induct [where P = "\<lambda>out threshold chunk ys.
      \<not> (chunk < 0 \<and> list_all (\<lambda>s. \<bar>s\<bar> < threshold) (py_slice_from out (- chunk)))", OF _ Some])
    fix f :: "real list \<Rightarrow> real \<Rightarrow> int \<Rightarrow> real list option"
    fix out threshold chunk ys
    assume IH: "\<And>out threshold chunk ys. f out threshold chunk = Some ys \<Longrightarrow>
        \<not> (chunk < 0 \<and> list_all (\<lambda>s. \<bar>s\<bar> < threshold) (py_slice_from out (- chunk)))"
      and eq: "(if chunk < int (length out) \<and>
                 list_all (\<lambda>s. \<bar>s\<bar> < threshold) (py_slice_from out (- chunk))
              then f (py_slice_to out (- chunk)) threshold chunk
              else Some out) = Some ys"
    show "\<not> (chunk < 0 \<and> list_all (\<lambda>s. \<bar>s\<bar> < threshold) (py_slice_from out (- chunk)))"
    proof
      assume neg: "chunk < 0 \<and> list_all (\<lambda>s. \<bar>s\<bar> < threshold) (py_slice_from out (- chunk))"
      then have "chunk < int (length out)" by simp
      with neg eq have "f (py_slice_to out (- chunk)) threshold chunk = Some ys" by simp
      from IH [OF this] neg
      have "\<not> list_all (\<lambda>s. \<bar>s\<bar> < threshold) (py_slice_from (py_slice_to out (- chunk)) (- chunk))"
        by simp
      moreover have "py_slice_from (py_slice_to out (- chunk)) (- chunk) = []"
        using neg by (simp add: py_slice_from_def py_slice_to_def)
      ultimately show False by simp
    qed
  qed
  with assms show ?thesis by simp
qed

section \<open>The normalizer\<close>

lemma normalize_unfold:
  assumes "samples \<noteq> []"
  shows "normalize samples peak =
           (let m = Max (abs ` set samples); mx = (if m = 0 then 1 else m)
            in if mx > peak then Inr (map (\<lambda>s. s * peak / mx) samples) else Inr samples)"
proof -
  have "map abs samples \<noteq> []" using assms by simp
  from py_max_Max [OF this] show ?thesis
    by (simp add: normalize_def Let_def)
qed

lemma max_abs_bounds:
  assumes "samples \<noteq> ([] :: real list)"
  shows "0 \<le> Max (abs ` set samples)" "\<forall>s\<in>set samples. \<bar>s\<bar> \<le> Max (abs ` set samples)"
proof -
  show b: "\<forall>s\<in>set samples. \<bar>s\<bar> \<le> Max (abs ` set samples)" by simp
  obtain s where "s \<in> set samples" using assms by (cases samples) auto
  then have "\<bar>s\<bar> \<le> Max (abs ` set samples)" using b by blast
  then show "0 \<le> Max (abs ` set samples)" by linarith
qed

lemma normalize_correct:
  assumes "samples \<noteq> ([] :: real list)"
  shows "\<exists>out. normalize samples peak = Inr out \<and> length out = length samples \<and>
           (0 \<le> peak \<longrightarrow> Max (abs ` set out) \<le> peak) \<and>
           (Max (abs ` set samples) \<le> peak \<longrightarrow> out = samples) \<and>
           ((\<forall>s\<in>set samples. s = 0) \<longrightarrow> out = samples)"
proof -
  define m where "m = Max (abs ` set samples)"
  define mx where "mx = (if m = 0 then 1 else m)"
  have m0: "0 \<le> m" and mb: "\<forall>s\<in>set samples. \<bar>s\<bar> \<le> m"
    using max_abs_bounds [OF assms] by (simp_all add: m_def)
  have mxpos: "0 < mx" using m0 by (simp add: mx_def)
  have mxb: "\<forall>s\<in>set samples. \<bar>s\<bar> \<le> mx"
    using mb m0 by (auto simp: mx_def)
  have unf: "normalize samples peak
      = (if mx > peak then Inr (map (\<lambda>s. s * peak / mx) samples) else Inr samples)"
    by (simp add: normalize_unfold [OF assms] Let_def m_def mx_def)
  have zero: "(\<forall>s\<in>set samples. s = 0) \<Longrightarrow> map (\<lambda>s. s * peak / mx) samples = samples"
    by (induction samples) auto
  show ?thesis
  proof (cases "mx > peak")
    case True
    let ?out = "map (\<lambda>s. s * peak / mx) samples"
    have run: "normalize samples peak = Inr ?out" using True unf by simp
    have bound: "Max (abs ` set ?out) \<le> peak" if p: "0 \<le> peak"
    proof -
      have ne: "abs ` set ?out \<noteq> {}" using assms by simp
      have "\<bar>s * peak / mx\<bar> \<le> peak" if s: "s \<in> set samples" for s
      proof -
        have "\<bar>s\<bar> \<le> mx" using mxb s by blast
        then have "\<bar>s\<bar> * peak \<le> mx * peak" using p by (rule mult_right_mono)
        then have "\<bar>s\<bar> * peak / mx \<le> peak" using mxpos by (simp add: field_simps)
        moreover have "\<bar>s * peak / mx\<bar> = \<bar>s\<bar> * peak / mx"
          using p mxpos by (simp add: abs_mult)
        ultimately show ?thesis by simp
      qed
      then have "\<forall>a\<in>abs ` set ?out. a \<le> peak" by auto
      then show ?thesis using ne by (simp add: Max_le_iff)
    qed
    have same: "?out = samples" if "m \<le> peak"
    proof -
      have "m = 0" using True that by (auto simp: mx_def split: if_splits)
      then have "\<forall>s\<in>set samples. s = 0" using mb by auto
      then show ?thesis by (rule zero)
    qed
    show ?thesis using run bound same zero unfolding m_def [symmetric] by auto
  next
    case False
    have run: "normalize samples peak = Inr samples" using False unf by simp
    have "Max (abs ` set samples) \<le> peak"
    proof -
      have "m \<le> mx" using m0 by (simp add: mx_def)
      then show ?thesis using False by (simp add: m_def)
    qed
    then show ?thesis using run by simp
  qed
qed

text \<open>
  The target peak is an amplitude, so not negative: no absolute value is below a
  negative peak, and \<open>normalize([1.0], -1.0)\<close> is \<open>[-1.0]\<close>.
\<close>

lemma normalize_negative_peak: "normalize [1] (-1) = Inr [-1]"
  by (simp add: normalize_def)

text \<open>
  C7. On a non-empty buffer \<open>normalize\<close> returns a buffer of the same length whose
  maximum absolute sample is at most the target peak (an amplitude, \<open>peak \<ge> 0\<close>); when
  the input's maximum absolute sample is at most \<open>peak\<close> the buffer is returned
  unchanged, so nothing is amplified; an all-zero buffer is returned unchanged, with 1.0
  in place of the maximum and no division by zero.
\<close>

theorem normalize_peak_bound:
  assumes "samples \<noteq> ([] :: real list)"
  shows "\<exists>out. normalize samples peak = Inr out \<and> length out = length samples \<and>
           (0 \<le> peak \<longrightarrow> Max (abs ` set out) \<le> peak) \<and>
           (Max (abs ` set samples) \<le> peak \<longrightarrow> out = samples) \<and>
           ((\<forall>s\<in>set samples. s = 0) \<longrightarrow> out = samples)"
  using assms by (rule normalize_correct)

theorem normalize_peak_bound_witness:
  "[3, -4, 1] \<noteq> ([] :: real list) \<and> (0::real) \<le> 2 \<and>
   normalize [3, -4, 1] 2 = Inr [3/2, -2, 1/2] \<and> Max (abs ` set [3/2, -2, 1/2 :: real]) \<le> 2 \<and>
   normalize [0, 0] 0.9 = Inr [0, 0] \<and>
   normalize [1/2, -1/4] 0.9 = Inr [1/2, -1/4]"
proof -
  have h: "[3, -4, 1] \<noteq> ([] :: real list)" "[0, 0] \<noteq> ([] :: real list)"
    "[1/2, -1/4] \<noteq> ([] :: real list)" by simp_all
  have a: "normalize [3, -4, 1] 2 = Inr [3/2, -2, 1/2]"
    by (simp add: normalize_def)
  from normalize_peak_bound [OF h(1), of 2] a
  have b: "Max (abs ` set [3/2, -2, 1/2 :: real]) \<le> 2" by auto
  from normalize_peak_bound [OF h(2), of "0.9"]
  have c: "normalize [0, 0] 0.9 = Inr [0, 0]" by auto
  from normalize_peak_bound [OF h(3), of "0.9"]
  have d: "normalize [1/2, -1/4] 0.9 = Inr [1/2, -1/4]" by auto
  show ?thesis using h a b c d by simp
qed


section \<open>Empty buffers and parameters out of range\<close>

lemma fade_out_empty:
  "fade_out [] fade_ms sr
     = replicate (nat (py_int (sr * 0.05))) 0 @ replicate (nat (py_int (sr * 0.05))) 0"
proof -
  have "nat (min (py_int (sr * fade_ms / 1000)) 0) = 0" by simp
  then show ?thesis by (simp add: fade_out_def Let_def)
qed

lemma lowpass_no_validation:
  assumes "cutoff_hz \<noteq> 0" "sr \<noteq> 0" "1 / (2 * pi * cutoff_hz) + 1 / sr \<noteq> 0" "samples \<noteq> []"
  shows "\<exists>out. lowpass samples cutoff_hz sr poles = Inr out \<and> length out = length samples"
proof -
  have "lowpass samples cutoff_hz sr poles
          = lowpass_poles (nat poles) (1 / sr / (1 / (2 * pi * cutoff_hz) + 1 / sr)) samples"
    using assms(1,2,3) by (simp add: lowpass_def Let_def)
  then show ?thesis using lowpass_poles_ok [OF assms(4)] by simp
qed

text \<open>
  C3, as the code has it. On a zero-length buffer \<open>normalize\<close> raises Python's
  \<open>ValueError\<close> (the maximum of an empty sequence), \<open>trim_silence\<close> returns the empty
  buffer (chunk \<open>\<ge> 0\<close>) and \<open>fade_out\<close> returns the two pads of \<open>int(0.05 * sr)\<close> zeros.
  \<open>lowpass\<close> checks no parameter: a cutoff or a sample rate of 0 raises
  \<open>ZeroDivisionError\<close>, and every other cutoff and sample rate, positive or not, for
  which \<open>rc + dt\<close> is not 0 gives a result on a non-empty buffer.
\<close>

theorem untyped_failures:
  "normalize [] peak = Inl ValueError \<and>
   (0 \<le> chunk \<longrightarrow> trim_silence [] threshold chunk = Some []) \<and>
   fade_out [] fade_ms sr
     = replicate (nat (py_int (sr * 0.05))) 0 @ replicate (nat (py_int (sr * 0.05))) 0 \<and>
   lowpass samples 0 sr poles = Inl ZeroDivisionError \<and>
   lowpass samples cutoff_hz 0 poles = Inl ZeroDivisionError \<and>
   (cutoff_hz \<noteq> 0 \<and> sr \<noteq> 0 \<and> 1 / (2 * pi * cutoff_hz) + 1 / sr \<noteq> 0 \<and> samples \<noteq> [] \<longrightarrow>
      (\<exists>out. lowpass samples cutoff_hz sr poles = Inr out \<and> length out = length samples))"
proof -
  have a: "normalize [] peak = Inl ValueError" by (simp add: normalize_def)
  have b: "0 \<le> chunk \<longrightarrow> trim_silence [] threshold chunk = Some []"
    by (simp add: trim_silence_stops)
  have c: "lowpass samples 0 sr poles = Inl ZeroDivisionError" by (simp add: lowpass_def)
  have d: "lowpass samples cutoff_hz 0 poles = Inl ZeroDivisionError"
    by (simp add: lowpass_def Let_def)
  show ?thesis using a b c d fade_out_empty lowpass_no_validation by blast
qed

lemma negative_cutoff_divisor: "1 / (2 * pi * (- 1800)) + 1 / 44100 \<noteq> (0::real)"
proof -
  have "2 * pi * 1800 < 44100" using pi_less_4 by simp
  moreover have "0 < 2 * pi * 1800" by simp
  ultimately have "1 / 44100 < 1 / (2 * pi * 1800)"
    by (intro divide_strict_left_mono) simp_all
  then show ?thesis by simp
qed

theorem untyped_failures_witness:
  "(0::int) \<le> 200 \<and> trim_silence [] (1/10000) 200 = Some [] \<and>
   (- 1800 :: real) \<noteq> 0 \<and> (44100::real) \<noteq> 0 \<and> 1 / (2 * pi * (- 1800)) + 1 / 44100 \<noteq> (0::real) \<and>
   [1, 2] \<noteq> ([]::real list) \<and>
   (\<exists>out. lowpass [1, 2] (- 1800) 44100 3 = Inr out \<and> length out = 2)"
proof -
  have h: "(0::int) \<le> 200" "(- 1800 :: real) \<noteq> 0" "(44100::real) \<noteq> 0"
    "[1, 2] \<noteq> ([]::real list)" by simp_all
  note n = negative_cutoff_divisor
  from untyped_failures [where chunk = 200 and threshold = "1/10000" and peak = 0
      and fade_ms = 0 and sr = 44100 and samples = "[1, 2]" and cutoff_hz = "- 1800" and poles = 3] h(1)
  have a: "trim_silence [] (1/10000) 200 = Some []" by blast
  from untyped_failures [where chunk = 200 and threshold = "1/10000" and peak = 0
      and fade_ms = 0 and sr = 44100 and samples = "[1, 2]" and cutoff_hz = "- 1800" and poles = 3] h n
  have "\<exists>out. lowpass [1, 2] (- 1800) 44100 3 = Inr out \<and> length out = length [1, 2 :: real]"
    by blast
  then have b: "\<exists>out. lowpass [1, 2] (- 1800) 44100 3 = Inr out \<and> length out = 2"
    by (simp add: numeral_2_eq_2)
  show ?thesis using h n a b by blast
qed

text \<open>
  C3 as stated fails: \<open>trim_silence\<close> and \<open>fade_out\<close> accept the empty buffer,
  \<open>normalize\<close> fails on it with the \<open>ValueError\<close> of \<open>max\<close>, and \<open>lowpass\<close> computes a
  result for the cutoff -1800 Hz.
\<close>

theorem untyped_failures_counterexample:
  "trim_silence [] (1/10000) 200 = Some [] \<and>
   length (fade_out [] 200 44100) = 4410 \<and>
   normalize [] 0.9 = Inl ValueError \<and>
   lowpass [1] 1800 0 1 = Inl ZeroDivisionError \<and>
   (\<exists>out. lowpass [1] (- 1800) 44100 1 = Inr out)"
proof -
  have a: "trim_silence [] (1/10000) 200 = Some []" by (simp add: trim_silence_stops)
  have b: "length (fade_out [] 200 44100) = 4410" by (simp add: fade_out_empty py_int_def)
  have c: "normalize [] 0.9 = Inl ValueError" by (simp add: normalize_def)
  have d: "lowpass [1] 1800 0 1 = Inl ZeroDivisionError" by (simp add: lowpass_def Let_def)
  have "(- 1800 :: real) \<noteq> 0" "(44100::real) \<noteq> 0" "[1] \<noteq> ([]::real list)" by simp_all
  from lowpass_no_validation [OF this(1,2) negative_cutoff_divisor this(3), of 1]
  have e: "\<exists>out. lowpass [1] (- 1800) 44100 1 = Inr out" by blast
  show ?thesis using a b c d e by blast
qed

section \<open>The quantizer\<close>

text \<open>
  C8. \<open>to_int16\<close> maps every sample \<open>s\<close> to the integer obtained by clamping \<open>s\<close> to
  \<open>[-1, 1]\<close>, multiplying by 32767 and truncating toward zero. It is monotonic across
  buffers (\<open>x \<le> y\<close> gives a quantized \<open>x\<close> at most the quantized \<open>y\<close>), every sample
  above 1 becomes 32767 and every sample below -1 becomes the one value -32767.
\<close>

theorem to_int16_monotonic_saturating:
  "length (to_int16 xs) = length xs \<and>
   (\<forall>i<length xs. to_int16 xs ! i = py_int (max (-1) (min 1 (xs ! i)) * 32767)) \<and>
   (\<forall>x. \<bar>of_int (py_int x)\<bar> \<le> \<bar>x\<bar> \<and> \<bar>x\<bar> < \<bar>of_int (py_int x)\<bar> + 1
        \<and> (0 \<le> x \<longrightarrow> 0 \<le> py_int x) \<and> (x \<le> 0 \<longrightarrow> py_int x \<le> 0)) \<and>
   (\<forall>i<length xs. \<forall>j<length ys. xs ! i \<le> ys ! j \<longrightarrow> to_int16 xs ! i \<le> to_int16 ys ! j) \<and>
   (\<forall>i<length xs. 1 < xs ! i \<longrightarrow> to_int16 xs ! i = 32767) \<and>
   (\<forall>i<length xs. xs ! i < -1 \<longrightarrow> to_int16 xs ! i = -32767)"
proof -
  have mono: "x \<le> y \<Longrightarrow>
      py_int (max (-1) (min 1 x) * 32767) \<le> py_int (max (-1) (min 1 y) * 32767)" for x y :: real
    by (rule py_int_mono) auto
  have hi: "1 < x \<Longrightarrow> py_int (max (-1) (min 1 x) * 32767) = 32767" for x :: real
    by simp
  have lo: "x < -1 \<Longrightarrow> py_int (max (-1) (min 1 x) * 32767) = -32767" for x :: real
    by simp
  show ?thesis
    using py_int_truncates mono hi lo by (simp add: to_int16_def)
qed

theorem to_int16_monotonic_saturating_witness:
  "to_int16 [2, -3, 1/2] = [32767, -32767, 16383] \<and>
   to_int16 [2, -3, 1/2] ! 1 \<le> to_int16 [-1/2, 7] ! 0 \<and>
   to_int16 [-1/2, 7] = [-16383, 32767]"
  using to_int16_monotonic_saturating [of "[2, -3, 1/2]" "[-1/2, 7]"]
  by (simp add: to_int16_def py_int_def)

end
